theory Spec2Isabelle
  imports Main "HOL-Library.Sublist"
begin

chapter \<open>The model of build.py\<close>

section \<open>Python values used by build.py\<close>

text \<open>
  Exceptions are values.  \<open>SystemExit n\<close> is what \<open>Logger.error\<close> raises through
  \<open>sys.exit(1)\<close>; it derives from \<open>BaseException\<close>, so an \<open>except Exception\<close> clause does
  not catch it.  Every other constructor is an \<open>Exception\<close>.
\<close>

datatype exn =
    SystemExit nat
  | KeyError string
  | IndexError
  | AttributeError
  | UnicodeDecodeError
  | FileExistsError string
  | FileNotFoundError string
  | NotADirectoryError string
  | IsADirectoryError string
  | SameFileError string
  | OSError string

text \<open>A dict with string keys, as an association list; a missing key raises \<open>KeyError\<close>.\<close>

definition getitem :: "(string \<times> 'v) list \<Rightarrow> string \<Rightarrow> exn + 'v" where
  "getitem d k = (case map_of d k of None \<Rightarrow> Inl (KeyError k) | Some v \<Rightarrow> Inr v)"

text \<open>\<open>sep.join(xs)\<close>.\<close>

fun join :: "string \<Rightarrow> string list \<Rightarrow> string" where
  "join sep [] = []"
| "join sep [x] = x"
| "join sep (x # y # ys) = x @ sep @ join sep (y # ys)"

text \<open>\<open>s.split(c)\<close> for a one-character separator: never empty, keeps empty fields.\<close>

fun split :: "char \<Rightarrow> string \<Rightarrow> string list" where
  "split c [] = [[]]"
| "split c (x # xs) =
     (if x = c then [] # split c xs
      else (case split c xs of [] \<Rightarrow> [[x]] | l # ls \<Rightarrow> (x # l) # ls))"

text \<open>\<open>needle in haystack\<close> on strings.\<close>

fun contains :: "string \<Rightarrow> string \<Rightarrow> bool" where
  "contains needle [] = (needle = [])"
| "contains needle (x # xs) = (prefix needle (x # xs) \<or> contains needle xs)"

subsection \<open>\<open>datetime.now().strftime('%Y%m%d')\<close>\<close>

record datetime =
  year :: nat
  month :: nat
  day :: nat

definition digit :: "nat \<Rightarrow> char" where
  "digit n = ''0123456789'' ! (n mod 10)"

fun str_nat :: "nat \<Rightarrow> string" where
  "str_nat n = (if n < 10 then [digit n] else str_nat (n div 10) @ [digit n])"

declare str_nat.simps [simp del]

definition zfill :: "nat \<Rightarrow> string \<Rightarrow> string" where
  "zfill w s = replicate (w - length s) (CHR ''0'') @ s"

text \<open>
  \<open>strftime\<close> hands the format to the C library.  On Linux, the platform of the script,
  \<open>%Y\<close> is the year as a decimal number and is not padded: the year 999 gives three
  digits.  \<open>%m\<close> and \<open>%d\<close> are the month and the day, padded with a zero to two digits.
  A Python \<open>datetime\<close> has \<open>1 \<le> year \<le> 9999\<close>, \<open>1 \<le> month \<le> 12\<close>, \<open>1 \<le> day \<le> 31\<close>.
\<close>

definition strftime_Ymd :: "datetime \<Rightarrow> string" where
  "strftime_Ymd t = str_nat (year t) @ zfill 2 (str_nat (month t)) @ zfill 2 (str_nat (day t))"

section \<open>Module constants\<close>

record type_cfg =
  watermark_opt :: string
  description :: string

record config =
  source :: string
  docs :: "(string \<times> string) list"
  version :: string
  env :: string
  default_type :: string
  build_dir :: string
  build_target :: string
  build_cmd :: "(string \<times> string list) list"
  type_config :: "(string \<times> type_cfg) list"
  required_source :: "string list"

text \<open>
  \<open>ROOT_PATH\<close> is the directory of the script; the constants below depend on it.
  \<open>sq\<close> is the single quote that the description literals carry inside their double quotes.
\<close>

abbreviation sq :: char where
  "sq \<equiv> CHR 0x27"

definition CONFIGS :: "string \<Rightarrow> config" where
  "CONFIGS ROOT_PATH = \<lparr>
     source = ''openrisc-manual.adoc'',
     docs = [(''pdf'', ''openrisc-manual.pdf''),
             (''html'', ''openrisc-manual.html''),
             (''epub'', ''openrisc-manual.epub''),
             (''json'', ''openrisc-manual-norm-tags.json'')],
     version = ''1.4.0'',
     env = ''C.utf8'',
     default_type = ''draft'',
     build_dir = ROOT_PATH @ ''/build'',
     build_target = ''all'',
     build_cmd = [(''pdf'', [''bundle'', ''exec'', ''asciidoctor-pdf'']),
                  (''html'', [''bundle'', ''exec'', ''asciidoctor'']),
                  (''epub'', [''bundle'', ''exec'', ''asciidoctor-epub3'']),
                  (''json'', [''bundle'', ''exec'', ''asciidoctor'', ''--backend'', ''tags'',
                              ''--require=./docs-resources/converters/tags.rb''])],
     type_config =
       [(''draft'', \<lparr>watermark_opt = ''-a draft-watermark'',
                     description = [sq] @ ''DRAFT---NOT AN OFFICIAL RELEASE'' @ [sq]\<rparr>),
        (''intermediate'', \<lparr>watermark_opt = '''',
                            description = [sq] @ ''Intermediate Release'' @ [sq]\<rparr>),
        (''official'', \<lparr>watermark_opt = '''',
                        description = [sq] @ ''Official Release'' @ [sq]\<rparr>)],
     required_source = [ROOT_PATH @ ''/docs-resources/global-config.adoc'']\<rparr>"

definition OPTIONS :: "string \<Rightarrow> string list" where
  "OPTIONS ROOT_PATH =
    [''--trace'',
     ''-a'', ''compress'',
     ''-a mathematical-format=svg'',
     ''-a pdf-fontsdir=docs-resources/fonts'',
     ''-a pdf-theme=docs-resources/themes/openrisc-pdf.yml'',
     ''-a docinfo=shared'',
     ''-D build'',
     ''-a bibtex-file='' @ ROOT_PATH @ ''/assets/resource/openrisc.bib'',
     ''--failure-level=WARN'']"

definition REQUIRES :: "string list" where
  "REQUIRES =
    [''--require=asciidoctor-bibtex'',
     ''--require=asciidoctor-diagram'',
     ''--require=asciidoctor-lists'',
     ''--require=asciidoctor-mathematical'',
     ''--require=asciidoctor-sail'']"

section \<open>The store of mutable lists\<close>

text \<open>
  A Python list is an object: \<open>self.options = OPTIONS\<close> copies the reference, not the
  list.  The store maps a reference to the list it currently holds; the module-level
  \<open>OPTIONS\<close> lives at \<open>OPTIONS_ref\<close> and holds its literal when the module has been loaded.
\<close>

type_synonym ref = nat
type_synonym heap = "ref \<Rightarrow> string list"

definition OPTIONS_ref :: ref where
  "OPTIONS_ref = 0"

definition module_heap :: "string \<Rightarrow> heap" where
  "module_heap ROOT_PATH = (\<lambda>r. [])(OPTIONS_ref := OPTIONS ROOT_PATH)"

definition append :: "ref \<Rightarrow> string \<Rightarrow> heap \<Rightarrow> heap" where
  "append r x h = h(r := h r @ [x])"

section \<open>DocumentBuilder\<close>

record builder =
  self_verbose :: bool
  self_version :: string
  self_build_cmd :: "(string \<times> string list) list"
  self_build_time :: string
  self_build_dir :: string
  self_build_type :: string
  self_build_target :: string
  self_ruby_bin :: string
  self_ruby_lib :: string
  self_ruby_require :: "string list option"
  self_required_source :: "string list"
  self_work_dir :: "string \<rightharpoonup> string"
  self_docs :: "string list"
  self_options :: ref

text \<open>
  \<open>DocumentBuilder.__init__\<close>.  \<open>self.ruby_require\<close> is not assigned here (it is set by
  \<open>_setup_ruby_environment\<close>), hence the option.  Both dict lookups that can fail are
  evaluated before the first \<open>append\<close>, so a \<open>KeyError\<close> leaves the store as it was.
\<close>

definition init_docs :: "config \<Rightarrow> exn + string list" where
  "init_docs cfg =
     (if build_target cfg = ''all'' then
        (case getitem (docs cfg) ''json'' of Inl e \<Rightarrow> Inl e | Inr j \<Rightarrow>
        (case getitem (docs cfg) ''pdf'' of Inl e \<Rightarrow> Inl e | Inr p \<Rightarrow>
        (case getitem (docs cfg) ''html'' of Inl e \<Rightarrow> Inl e | Inr h \<Rightarrow>
        (case getitem (docs cfg) ''epub'' of Inl e \<Rightarrow> Inl e | Inr e \<Rightarrow>
           Inr [j, p, h, e]))))
      else
        (case getitem (docs cfg) (build_target cfg) of Inl e \<Rightarrow> Inl e | Inr d \<Rightarrow> Inr [d]))"

definition DocumentBuilder_init ::
    "config \<Rightarrow> bool \<Rightarrow> datetime \<Rightarrow> heap \<Rightarrow> exn + (builder \<times> heap)" where
  "DocumentBuilder_init cfg verbose now h =
     (case init_docs cfg of Inl e \<Rightarrow> Inl e | Inr ds \<Rightarrow>
     (case getitem (type_config cfg) (default_type cfg) of Inl e \<Rightarrow> Inl e | Inr tc \<Rightarrow>
        (let self = \<lparr>
              self_verbose = verbose,
              self_version = version cfg,
              self_build_cmd = build_cmd cfg,
              self_build_time = strftime_Ymd now,
              self_build_dir = build_dir cfg,
              self_build_type = default_type cfg,
              self_build_target = build_target cfg,
              self_ruby_bin = '''',
              self_ruby_lib = '''',
              self_ruby_require = None,
              self_required_source = required_source cfg,
              self_work_dir = Map.empty,
              self_docs = ds,
              self_options = OPTIONS_ref\<rparr>;
            h1 = append (self_options self) (watermark_opt tc) h;
            h2 = (if self_build_type self = ''draft''
                  then append (self_options self) (''-a revnumber='' @ self_build_time self) h1
                  else append (self_options self) (''-a revnumber='' @ self_version self) h1);
            h3 = append (self_options self) (''-a revremark='' @ description tc) h2
         in Inr (self, h3))))"

text \<open>The three fields \<open>main\<close> overwrites in \<open>CONFIGS\<close> from the command line.\<close>

record args =
  release_type :: string
  arg_version :: string
  target :: string
  clean :: bool
  update_wave_flag :: bool
  verbose :: bool

definition main_config :: "string \<Rightarrow> args \<Rightarrow> config" where
  "main_config ROOT_PATH a =
     (CONFIGS ROOT_PATH)\<lparr>default_type := release_type a, build_target := target a,
                          version := arg_version a\<rparr>"

section \<open>Flags of the options sequence\<close>

definition is_revnumber_flag :: "string \<Rightarrow> bool" where
  "is_revnumber_flag s = prefix ''-a revnumber='' s"

definition is_revremark_flag :: "string \<Rightarrow> bool" where
  "is_revremark_flag s = prefix ''-a revremark='' s"

definition is_watermark_flag :: "string \<Rightarrow> bool" where
  "is_watermark_flag s = prefix ''-a draft-watermark'' s"

text \<open>A Python \<open>datetime\<close> is in range; a digit is one of the ten decimal characters.\<close>

definition valid_datetime :: "datetime \<Rightarrow> bool" where
  "valid_datetime t = (1 \<le> year t \<and> year t \<le> 9999 \<and> 1 \<le> month t \<and> month t \<le> 12 \<and> 1 \<le> day t \<and> day t \<le> 31)"

definition is_digit :: "char \<Rightarrow> bool" where
  "is_digit c = (c \<in> set ''0123456789'')"

text \<open>The number that a string of decimal digits denotes, \<open>int(s)\<close>.\<close>

definition digit_value :: "char \<Rightarrow> nat" where
  "digit_value c = of_char c - 48"

definition int_str :: "string \<Rightarrow> nat" where
  "int_str s = foldl (\<lambda>a c. 10 * a + digit_value c) 0 s"

section \<open>The filesystem and the host\<close>

text \<open>
  The filesystem maps an absolute path to what is stored there: a directory, a file with its
  content, or a symbolic link with the absolute path it points to.  Paths are compared as
  strings.
\<close>

datatype node = Dir | File string | Symlink string

type_synonym fs = "string \<rightharpoonup> node"

text \<open>
  What \<open>subprocess.run\<close> finds: the program ran and left an exit status and its standard
  output (as decoded text, \<open>None\<close> when the bytes are not valid UTF-8), or it could not be
  started and the operating system error is raised.
\<close>

datatype run_result = Exited nat "string option" | NotStarted exn

text \<open>
  Everything outside the script that a run reads.  \<open>dpkg\<close> is the run of \<open>dpkg -s\<close> on a
  package.  The provisioning sequences (the batched \<open>apt-get install\<close>, the three
  \<open>bundle\<close> commands, the node set-up, \<open>git submodule update\<close>) are kept as their
  outcome: \<open>None\<close> when the step completes, otherwise the exception that leaves it, which is
  the \<open>SystemExit\<close> of \<open>Logger.error\<close> or the \<open>AttributeError\<close> of an error handler that
  decodes an error text that was not captured.  \<open>renderer cwd cmd\<close> is the shell command of
  \<open>build_for_all\<close>: the captured error text on a non-zero exit, or the name and the content
  of the file it has written under \<open>build\<close> in \<open>cwd\<close>.  \<open>edn_files\<close> is the listing of
  \<open>*.edn\<close> in the diagram directory, in the order \<open>glob\<close> yields it, each name with the
  text of the file; \<open>wavedrom_cli\<close> gives the image for an input, \<open>None\<close> on a non-zero
  exit.
\<close>

record host =
  os_release :: "string option"
  dpkg :: "string \<Rightarrow> run_result"
  apt_get_install :: "string list \<Rightarrow> exn option"
  bundle_env :: "exn option"
  node_env :: "exn option"
  git_submodule :: "fs \<Rightarrow> exn + fs"
  renderer :: "string \<Rightarrow> string \<Rightarrow> string + (string \<times> string)"
  edn_files :: "(string \<times> string) list"
  wavedrom_cli :: "string \<Rightarrow> string option"

section \<open>Diagram regeneration\<close>

abbreviation NL :: char where
  "NL \<equiv> CHR 0x0A"

text \<open>
  \<open>re.search(r'^\.\.\.\.\n(.*?)\n\.\.\.\.$', content, re.DOTALL | re.MULTILINE)\<close>.
  With \<open>MULTILINE\<close>, \<open>^\<close> holds at the start of the text and after each newline, and
  \<open>$\<close> holds at the end of the text and before each newline; with \<open>DOTALL\<close> the dot
  matches every character.  \<open>at_end_marker s\<close>: the tail \<open>\n\.\.\.\.$\<close> of the pattern
  matches at the head of \<open>s\<close>.  \<open>lazy_group acc s\<close>: the lazy group tries the shortest
  extension first, so it stops at the first position where the tail matches.
  \<open>match_at bol s\<close>: the whole pattern matches at the head of \<open>s\<close>, where \<open>bol\<close> says
  whether \<open>^\<close> holds there.  \<open>re_search\<close> tries the positions from left to right and
  yields group 1 of the first match.
\<close>

definition at_end_marker :: "string \<Rightarrow> bool" where
  "at_end_marker s = (prefix (NL # ''....'') s \<and> (drop 5 s = [] \<or> hd (drop 5 s) = NL))"

fun lazy_group :: "string \<Rightarrow> string \<Rightarrow> string option" where
  "lazy_group acc [] = (if at_end_marker [] then Some (rev acc) else None)"
| "lazy_group acc (c # cs) =
     (if at_end_marker (c # cs) then Some (rev acc) else lazy_group (c # acc) cs)"

definition match_at :: "bool \<Rightarrow> string \<Rightarrow> string option" where
  "match_at bol s = (if bol \<and> prefix (''....'' @ [NL]) s then lazy_group [] (drop 5 s) else None)"

fun re_search :: "bool \<Rightarrow> string \<Rightarrow> string option" where
  "re_search bol [] = match_at bol []"
| "re_search bol (c # cs) =
     (case match_at bol (c # cs) of Some g \<Rightarrow> Some g | None \<Rightarrow> re_search (c = NL) cs)"

definition wave_content :: "string \<Rightarrow> string option" where
  "wave_content content = re_search True content"

text \<open>
  \<open>edn_file.with_suffix('.svg').name\<close> for a name that \<open>glob("*.edn")\<close> yields: the last
  suffix is replaced, and the name \<open>.edn\<close> has no suffix to replace.
\<close>

definition with_suffix_svg :: "string \<Rightarrow> string" where
  "with_suffix_svg name =
     (if name = ''.edn'' then name @ ''.svg'' else take (length name - 4) name @ ''.svg'')"

text \<open>
  The loop of \<open>update_wave\<close>.  A text without the marker pair and a renderer that exits
  non-zero both end in \<open>Logger.error\<close>, which leaves the process with status 1; the images
  written so far stay.  The temporary file is outside the modelled filesystem.
\<close>

fun update_wave_files ::
    "host \<Rightarrow> string \<Rightarrow> (string \<times> string) list \<Rightarrow> fs \<Rightarrow> (exn + unit) \<times> fs" where
  "update_wave_files h svg_path [] fs = (Inr (), fs)"
| "update_wave_files h svg_path ((name, content) # rest) fs =
     (case wave_content content of
        None \<Rightarrow> (Inl (SystemExit 1), fs)
      | Some w \<Rightarrow>
         (case wavedrom_cli h w of
            None \<Rightarrow> (Inl (SystemExit 1), fs)
          | Some svg \<Rightarrow>
              update_wave_files h svg_path rest
                (fs(svg_path @ ''/'' @ with_suffix_svg name \<mapsto> File svg))))"

definition update_wave :: "string \<Rightarrow> host \<Rightarrow> fs \<Rightarrow> (exn + bool) \<times> fs" where
  "update_wave ROOT_PATH h fs =
     (case node_env h of
        Some e \<Rightarrow> (Inl e, fs)
      | None \<Rightarrow>
        (case update_wave_files h (ROOT_PATH @ ''/assets/images/wavedrom/svg'') (edn_files h) fs of
           (Inl e, fs') \<Rightarrow> (Inl e, fs')
         | (Inr u, fs') \<Rightarrow> (Inr True, fs')))"

text \<open>The lines of a text, and the line that is the marker.\<close>

definition lines :: "string \<Rightarrow> string list" where
  "lines s = split NL s"

definition marker :: string where
  "marker = ''....''"

section \<open>Environment inspection and provisioning\<close>

definition DEPENDENCIES_apt :: "string list" where
  "DEPENDENCIES_apt =
    [''bison'', ''build-essential'', ''cmake'', ''curl'', ''flex'', ''fonts-lyx'', ''graphviz'',
     ''bundler'', ''default-jre'', ''libcairo2-dev'', ''libffi-dev'', ''libgdk-pixbuf2.0-dev'',
     ''libpango1.0-dev'', ''libxml2-dev'', ''make'', ''pkg-config'', ''ruby'', ''ruby-dev'',
     ''libwebp-dev'', ''libzstd-dev'']"

text \<open>\<open>str.lower\<close> on the ASCII letters.\<close>

definition lower :: "string \<Rightarrow> string" where
  "lower s = map (\<lambda>c. if 65 \<le> (of_char c :: nat) \<and> (of_char c :: nat) \<le> 90
                        then char_of ((of_char c :: nat) + 32) else c) s"

text \<open>\<open>_check_distribution\<close>; \<open>os_release\<close> is \<open>None\<close> when the file is not found.\<close>

definition check_distribution :: "host \<Rightarrow> string" where
  "check_distribution h =
     (case os_release h of
        None \<Rightarrow> ''unknown''
      | Some t \<Rightarrow>
          if contains ''ubuntu'' (lower t) \<or> contains ''debian'' (lower t) then ''apt''
          else ''unknown'')"

text \<open>
  \<open>_check_package_installed\<close>.  With \<open>check=True\<close> a non-zero exit raises
  \<open>CalledProcessError\<close>, the one exception the function catches.  An error raised because
  the program could not be started, and the decoding error of the output, leave the function.
\<close>

definition check_package_installed :: "host \<Rightarrow> string \<Rightarrow> exn + bool" where
  "check_package_installed h package =
     (case dpkg h package of
        NotStarted e \<Rightarrow> Inl e
      | Exited status out \<Rightarrow>
          if status \<noteq> 0 then Inr False
          else (case out of
                  None \<Rightarrow> Inl UnicodeDecodeError
                | Some t \<Rightarrow> Inr (contains ''Status: install ok installed'' t)))"

text \<open>The loop of \<open>prepare_env\<close> that collects the packages to install.\<close>

fun packages_to_install :: "host \<Rightarrow> string list \<Rightarrow> exn + string list" where
  "packages_to_install h [] = Inr []"
| "packages_to_install h (p # ps) =
     (case check_package_installed h p of
        Inl e \<Rightarrow> Inl e
      | Inr installed \<Rightarrow>
         (case packages_to_install h ps of
            Inl e \<Rightarrow> Inl e
          | Inr rest \<Rightarrow> Inr (if installed then rest else p # rest)))"

text \<open>\<open>s.replace(old, new)\<close> for a non-empty \<open>old\<close>.\<close>

fun replace :: "string \<Rightarrow> string \<Rightarrow> string \<Rightarrow> string" where
  "replace old new [] = []"
| "replace old new (c # cs) =
     (if old \<noteq> [] \<and> prefix old (c # cs) then new @ replace old new (drop (length old - 1) cs)
      else c # replace old new cs)"

text \<open>\<open>_setup_ruby_environment\<close>, on the outcome of its \<open>bundle\<close> commands.\<close>

definition setup_ruby_environment ::
    "string \<Rightarrow> builder \<Rightarrow> host \<Rightarrow> string list \<Rightarrow> exn + (bool \<times> builder)" where
  "setup_ruby_environment ROOT_PATH self h ruby_require =
     (case bundle_env h of
        Some e \<Rightarrow> Inl e
      | None \<Rightarrow>
          (let install_path = ROOT_PATH @ ''/vendor/bundle'';
               ruby_version = ''3.3.0'';
               bin = install_path @ ''/ruby/'' @ ruby_version @ ''/bin'';
               lib = install_path @ ''/ruby/'' @ ruby_version @ ''/gems''
           in Inr (True, self\<lparr>self_ruby_bin := bin, self_ruby_lib := lib,
                     self_ruby_require := Some (map (replace ''REPLACE'' lib) ruby_require)\<rparr>)))"

text \<open>\<open>_setup_node_environment\<close>, on its outcome.\<close>

definition setup_node_environment :: "host \<Rightarrow> exn + bool" where
  "setup_node_environment h = (case node_env h of Some e \<Rightarrow> Inl e | None \<Rightarrow> Inr True)"

section \<open>Workspaces\<close>

text \<open>
  Where a path leads once links are followed: \<open>follow_links n fs p\<close> follows the link at
  \<open>p\<close>, and the links it leads to, at most \<open>n\<close> times.  The kernel gives up after
  \<open>MAXSYMLINKS\<close> links.  \<open>stat\<close> is \<open>os.stat\<close>: what is at the end of the chain, \<open>None\<close> when
  nothing is there (a dangling link) or the chain is too long.
\<close>

definition MAXSYMLINKS :: nat where
  "MAXSYMLINKS = 40"

primrec follow_links :: "nat \<Rightarrow> fs \<Rightarrow> string \<Rightarrow> string option" where
  "follow_links 0 fs p = (case fs p of Some (Symlink t) \<Rightarrow> None | _ \<Rightarrow> Some p)"
| "follow_links (Suc n) fs p = (case fs p of Some (Symlink t) \<Rightarrow> follow_links n fs t | _ \<Rightarrow> Some p)"

definition stat :: "fs \<Rightarrow> string \<Rightarrow> node option" where
  "stat fs p = (case follow_links MAXSYMLINKS fs p of None \<Rightarrow> None | Some q \<Rightarrow> fs q)"

text \<open>\<open>os.path.exists\<close> and \<open>os.path.isdir\<close>: both follow links.\<close>

definition path_exists :: "fs \<Rightarrow> string \<Rightarrow> bool" where
  "path_exists fs p = (stat fs p \<noteq> None)"

definition isdir :: "fs \<Rightarrow> string \<Rightarrow> bool" where
  "isdir fs p = (stat fs p = Some Dir)"

text \<open>The directories above a path: \<open>/a\<close> and \<open>/a/b\<close> for \<open>/a/b/c\<close>.\<close>

definition ancestors :: "string \<Rightarrow> string list" where
  "ancestors p = filter (\<lambda>q. q \<noteq> [] \<and> prefix (q @ ''/'') p) (prefixes p)"

text \<open>
  \<open>os.mkdir(name)\<close>, where \<open>head\<close> is the directory above \<open>name\<close> (\<open>None\<close> when that is the
  root directory): the name must be free, links included, and the directory above must be a
  directory.
\<close>

definition mkdir :: "fs \<Rightarrow> string option \<Rightarrow> string \<Rightarrow> exn + fs" where
  "mkdir fs head name =
     (if fs name \<noteq> None then Inl (FileExistsError name)
      else (case head of
              None \<Rightarrow> Inr (fs(name \<mapsto> Dir))
            | Some d \<Rightarrow>
               (case stat fs d of
                  None \<Rightarrow> Inl (FileNotFoundError name)
                | Some Dir \<Rightarrow> Inr (fs(name \<mapsto> Dir))
                | Some n \<Rightarrow> Inl (NotADirectoryError name))))"

text \<open>
  \<open>makedirs(name, exist_ok=True)\<close>, as the standard library defines it.  When the directory
  above does not exist it is made first, in the same way, and a \<open>FileExistsError\<close> of that
  call is passed over.  Then the directory itself is made; with \<open>exist_ok\<close> an error of
  \<open>mkdir\<close> is passed over when the name is a directory.  \<open>makedirs_from fs name up\<close> has in
  \<open>up\<close> the directories above \<open>name\<close>, the nearest first.
\<close>

definition is_FileExistsError :: "exn \<Rightarrow> bool" where
  "is_FileExistsError e = (case e of FileExistsError p \<Rightarrow> True | _ \<Rightarrow> False)"

definition mkdir_exist_ok :: "fs \<Rightarrow> string option \<Rightarrow> string \<Rightarrow> exn + fs" where
  "mkdir_exist_ok fs head name =
     (case mkdir fs head name of
        Inl e \<Rightarrow> if isdir fs name then Inr fs else Inl e
      | Inr fs1 \<Rightarrow> Inr fs1)"

fun makedirs_from :: "fs \<Rightarrow> string \<Rightarrow> string list \<Rightarrow> exn + fs" where
  "makedirs_from fs name [] = mkdir_exist_ok fs None name"
| "makedirs_from fs name (head # up) =
     (if \<not> path_exists fs head then
        (case makedirs_from fs head up of
           Inl e \<Rightarrow> if is_FileExistsError e then mkdir_exist_ok fs (Some head) name else Inl e
         | Inr fs1 \<Rightarrow> mkdir_exist_ok fs1 (Some head) name)
      else mkdir_exist_ok fs (Some head) name)"

definition makedirs :: "fs \<Rightarrow> string \<Rightarrow> exn + fs" where
  "makedirs fs p = makedirs_from fs p (rev (ancestors p))"

text \<open>\<open>os.symlink(target, link)\<close>.\<close>

definition symlink :: "fs \<Rightarrow> string \<Rightarrow> string \<Rightarrow> exn + fs" where
  "symlink fs tgt link =
     (if fs link \<noteq> None then Inl (FileExistsError link) else Inr (fs(link \<mapsto> Symlink tgt)))"

text \<open>\<open>doc.split(".")[1]\<close>.\<close>

definition build_targs :: "string \<Rightarrow> exn + string" where
  "build_targs doc =
     (case split (CHR ''.'') doc of
        a # b # rest \<Rightarrow> Inr b
      | _ \<Rightarrow> Inl IndexError)"

text \<open>The body of the \<open>if not os.path.exists(work_path)\<close> branch of \<open>_workdir_setup\<close>.\<close>

definition create_workdir :: "string \<Rightarrow> fs \<Rightarrow> string \<Rightarrow> (exn + unit) \<times> fs" where
  "create_workdir ROOT_PATH fs work_path =
     (case makedirs fs work_path of
        Inl e \<Rightarrow> (Inl e, fs)
      | Inr fs1 \<Rightarrow>
     (case symlink fs1 (ROOT_PATH @ ''/src'') (work_path @ ''/src'') of
        Inl e \<Rightarrow> (Inl e, fs1)
      | Inr fs2 \<Rightarrow>
     (case symlink fs2 (ROOT_PATH @ ''/docs-resources'') (work_path @ ''/docs-resources'') of
        Inl e \<Rightarrow> (Inl e, fs2)
      | Inr fs3 \<Rightarrow>
     (case symlink fs3 (ROOT_PATH @ ''/assets'') (work_path @ ''/assets'') of
        Inl e \<Rightarrow> (Inl e, fs3)
      | Inr fs4 \<Rightarrow> (Inr (), fs4)))))"

text \<open>
  The loop of \<open>_workdir_setup\<close> over \<open>self.docs\<close>, on the \<open>work_dir\<close> dict and the
  filesystem.  What has been created stays when a later step raises.
  \<open>workdir_path\<close> is \<open>os.path.join(self.build_dir, f"{doc}.workdir")\<close>.
\<close>

definition workdir_path :: "string \<Rightarrow> string \<Rightarrow> string" where
  "workdir_path bdir doc = bdir @ ''/'' @ doc @ ''.workdir''"

fun workdir_loop ::
    "string \<Rightarrow> string \<Rightarrow> string list \<Rightarrow> (string \<rightharpoonup> string) \<Rightarrow> fs
       \<Rightarrow> (exn + (string \<rightharpoonup> string)) \<times> fs" where
  "workdir_loop ROOT_PATH bdir [] wd fs = (Inr wd, fs)"
| "workdir_loop ROOT_PATH bdir (doc # ds) wd fs =
     (let work_path = workdir_path bdir doc in
      (case (if \<not> path_exists fs work_path then create_workdir ROOT_PATH fs work_path
             else (Inr (), fs)) of
         (Inl e, fs1) \<Rightarrow> (Inl e, fs1)
       | (Inr u, fs1) \<Rightarrow>
          (case build_targs doc of
             Inl e \<Rightarrow> (Inl e, fs1)
           | Inr t \<Rightarrow> workdir_loop ROOT_PATH bdir ds (wd(t \<mapsto> work_path)) fs1)))"

definition workdir_setup :: "string \<Rightarrow> builder \<Rightarrow> fs \<Rightarrow> (exn + builder) \<times> fs" where
  "workdir_setup ROOT_PATH self fs =
     (case workdir_loop ROOT_PATH (self_build_dir self) (self_docs self) (self_work_dir self) fs of
        (Inl e, fs1) \<Rightarrow> (Inl e, fs1)
      | (Inr wd, fs1) \<Rightarrow> (Inr (self\<lparr>self_work_dir := wd\<rparr>), fs1))"

text \<open>The loop of \<open>prepare_env\<close> over \<open>self.required_source\<close>.\<close>

fun check_required_source :: "host \<Rightarrow> string list \<Rightarrow> fs \<Rightarrow> (exn + unit) \<times> fs" where
  "check_required_source h [] fs = (Inr (), fs)"
| "check_required_source h (src # rest) fs =
     (if \<not> path_exists fs src then
        (case git_submodule h fs of
           Inl e \<Rightarrow> (Inl e, fs)
         | Inr fs1 \<Rightarrow> check_required_source h rest fs1)
      else check_required_source h rest fs)"

text \<open>
  \<open>prepare_env\<close>.  Each \<open>return False\<close> of the source follows a call of \<open>Logger.error\<close>,
  which has left the process, so the function returns \<open>True\<close> or raises.
\<close>

definition prepare_env :: "string \<Rightarrow> builder \<Rightarrow> host \<Rightarrow> fs \<Rightarrow> (exn + (bool \<times> builder)) \<times> fs" where
  "prepare_env ROOT_PATH self h fs =
     (if check_distribution h \<noteq> ''apt'' then (Inl (SystemExit 1), fs)
      else
     (case packages_to_install h DEPENDENCIES_apt of
        Inl e \<Rightarrow> (Inl e, fs)
      | Inr pkgs \<Rightarrow>
     (case (if pkgs \<noteq> [] then apt_get_install h pkgs else None) of
        Some e \<Rightarrow> (Inl e, fs)
      | None \<Rightarrow>
     (case setup_ruby_environment ROOT_PATH self h REQUIRES of
        Inl e \<Rightarrow> (Inl e, fs)
      | Inr (ok, self1) \<Rightarrow>
     (case setup_node_environment h of
        Inl e \<Rightarrow> (Inl e, fs)
      | Inr ok' \<Rightarrow>
     (case check_required_source h (self_required_source self1) fs of
        (Inl e, fs1) \<Rightarrow> (Inl e, fs1)
      | (Inr u, fs1) \<Rightarrow>
     (case workdir_setup ROOT_PATH self1 fs1 of
        (Inl e, fs2) \<Rightarrow> (Inl e, fs2)
      | (Inr self2, fs2) \<Rightarrow> (Inr (True, self2), fs2))))))))"

section \<open>The build pipeline and the finalizer\<close>

text \<open>
  The state of the process: the filesystem, the store, the working directory, and the
  renderer commands run so far, each with the target built, the directory it ran in and
  its command line.
\<close>

record world =
  filesystem :: fs
  heap :: heap
  cwd :: string
  runs :: "(string \<times> string \<times> string) list"

text \<open>The command line that \<open>build_for_all\<close> assembles.\<close>

definition cmd_str :: "string \<Rightarrow> builder \<Rightarrow> heap \<Rightarrow> string \<Rightarrow> exn + string" where
  "cmd_str ROOT_PATH self hp tgt =
     (case getitem (self_build_cmd self) tgt of
        Inl e \<Rightarrow> Inl e
      | Inr base \<Rightarrow>
     (case self_ruby_require self of
        None \<Rightarrow> Inl AttributeError
      | Some req \<Rightarrow>
          Inr (join '' ''
                (base
                 @ (if tgt = ''json''
                    then [''-a tags-match-prefix='' @ [sq] @ ''norm:'' @ [sq]
                          @ '' -a tags-output-suffix='' @ [sq] @ ''-norm-tags.json'' @ [sq]]
                    else [])
                 @ hp (self_options self)
                 @ req
                 @ [''src/'' @ source (CONFIGS ROOT_PATH)]))))"

text \<open>
  The path of a rendered file in a workspace, \<open>os.path.join(work_dir, 'build', doc)\<close>: the
  renderer runs in the workspace with the option \<open>-D build\<close>.
\<close>

definition artifact_path :: "string \<Rightarrow> string \<Rightarrow> string" where
  "artifact_path dir name = dir @ ''/build/'' @ name"

text \<open>\<open>os.chdir\<close>: the path must lead to a directory.\<close>

definition chdir :: "string \<Rightarrow> world \<Rightarrow> (exn + unit) \<times> world" where
  "chdir p w =
     (case stat (filesystem w) p of
        None \<Rightarrow> (Inl (FileNotFoundError p), w)
      | Some Dir \<Rightarrow> (Inr (), w\<lparr>cwd := p\<rparr>)
      | Some n \<Rightarrow> (Inl (NotADirectoryError p), w))"

text \<open>
  \<open>build_for_all\<close>.  On a non-zero exit the handler calls \<open>Logger.error\<close>; its message
  decodes \<open>e.stderr\<close>, which is a \<open>str\<close> under \<open>text=True\<close> when it was captured (not
  verbose) and not empty, so the handler raises \<open>AttributeError\<close> there.
\<close>

definition build_for_all :: "string \<Rightarrow> builder \<Rightarrow> host \<Rightarrow> string \<Rightarrow> world \<Rightarrow> (exn + unit) \<times> world" where
  "build_for_all ROOT_PATH self h tgt w =
     (case cmd_str ROOT_PATH self (heap w) tgt of
        Inl e \<Rightarrow> (Inl e, w)
      | Inr cmd \<Rightarrow>
     (case self_work_dir self tgt of
        None \<Rightarrow> (Inl (KeyError tgt), w)
      | Some dir \<Rightarrow>
     (case chdir dir w of
        (Inl e, w1) \<Rightarrow> (Inl e, w1)
      | (Inr u, w1) \<Rightarrow>
          (let w2 = w1\<lparr>runs := runs w1 @ [(tgt, cwd w1, cmd)]\<rparr> in
           (case renderer h (cwd w1) cmd of
              Inr (name, content) \<Rightarrow>
                (Inr (), w2\<lparr>filesystem := (filesystem w2)(artifact_path (cwd w1) name \<mapsto> File content)\<rparr>)
            | Inl stderr \<Rightarrow>
                (if \<not> self_verbose self \<and> stderr \<noteq> [] then (Inl AttributeError, w2)
                 else (Inl (SystemExit 1), w2)))))))"

text \<open>Sequencing of steps that may raise: the second runs when the first has returned.\<close>

definition and_then ::
    "('s \<Rightarrow> (exn + 'a) \<times> 's) \<Rightarrow> ('a \<Rightarrow> 's \<Rightarrow> (exn + 'b) \<times> 's) \<Rightarrow> 's \<Rightarrow> (exn + 'b) \<times> 's" where
  "and_then f g s = (case f s of (Inl e, s1) \<Rightarrow> (Inl e, s1) | (Inr v, s1) \<Rightarrow> g v s1)"

text \<open>
  \<open>shutil.copy2(src, dst)\<close>: the source is read and the destination written through links;
  a destination that is a directory receives the file under the name of the source; source
  and destination must not be the same file.
\<close>

definition basename :: "string \<Rightarrow> string" where
  "basename p = last (split (CHR ''/'') p)"

definition write_file :: "fs \<Rightarrow> string \<Rightarrow> string \<Rightarrow> exn + fs" where
  "write_file fs p c =
     (case follow_links MAXSYMLINKS fs p of
        None \<Rightarrow> Inl (OSError p)
      | Some q \<Rightarrow> if fs q = Some Dir then Inl (IsADirectoryError p) else Inr (fs(q \<mapsto> File c)))"

definition copy2 :: "string \<Rightarrow> string \<Rightarrow> fs \<Rightarrow> (exn + unit) \<times> fs" where
  "copy2 src dst fs =
     (let dst1 = (if isdir fs dst then dst @ ''/'' @ basename src else dst) in
      (case stat fs src of
         None \<Rightarrow> (Inl (FileNotFoundError src), fs)
       | Some (File c) \<Rightarrow>
           (if follow_links MAXSYMLINKS fs src = follow_links MAXSYMLINKS fs dst1
            then (Inl (SameFileError src), fs)
            else (case write_file fs dst1 c of
                    Inl e \<Rightarrow> (Inl e, fs)
                  | Inr fs1 \<Rightarrow> (Inr (), fs1)))
       | Some n \<Rightarrow> (Inl (IsADirectoryError src), fs)))"

text \<open>
  \<open>shutil.rmtree(p)\<close>: removes a directory and everything below it, and refuses a
  symbolic link.
\<close>

definition rmtree :: "string \<Rightarrow> fs \<Rightarrow> (exn + unit) \<times> fs" where
  "rmtree p fs =
     (case fs p of
        None \<Rightarrow> (Inl (FileNotFoundError p), fs)
      | Some Dir \<Rightarrow> (Inr (), (\<lambda>q. if q = p \<or> prefix (p @ ''/'') q then None else fs q))
      | Some (File c) \<Rightarrow> (Inl (NotADirectoryError p), fs)
      | Some (Symlink t) \<Rightarrow> (Inl (OSError p), fs))"

text \<open>\<open>clean_work_dir\<close>: the loop over \<open>self.docs\<close>.\<close>

fun clean_work_dir_loop :: "builder \<Rightarrow> string list \<Rightarrow> fs \<Rightarrow> (exn + unit) \<times> fs" where
  "clean_work_dir_loop self [] fs = (Inr (), fs)"
| "clean_work_dir_loop self (doc # ds) fs =
     (case build_targs doc of
        Inl e \<Rightarrow> (Inl e, fs)
      | Inr t \<Rightarrow>
     (case self_work_dir self t of
        None \<Rightarrow> (Inl (KeyError t), fs)
      | Some dir \<Rightarrow>
          and_then (copy2 (artifact_path dir doc) (self_build_dir self @ ''/'' @ doc))
            (\<lambda>u. and_then (rmtree dir) (\<lambda>u. clean_work_dir_loop self ds)) fs))"

definition clean_work_dir :: "builder \<Rightarrow> world \<Rightarrow> (exn + unit) \<times> world" where
  "clean_work_dir self w =
     (case clean_work_dir_loop self (self_docs self) (filesystem w) of (r, fs1) \<Rightarrow> (r, w\<lparr>filesystem := fs1\<rparr>))"

section \<open>main\<close>

text \<open>The four calls of the \<open>all\<close> branch of \<open>main\<close>.\<close>

definition build_all :: "string \<Rightarrow> builder \<Rightarrow> host \<Rightarrow> world \<Rightarrow> (exn + unit) \<times> world" where
  "build_all ROOT_PATH builder h =
     and_then (build_for_all ROOT_PATH builder h ''pdf'')
       (\<lambda>u. and_then (build_for_all ROOT_PATH builder h ''epub'')
         (\<lambda>u. and_then (build_for_all ROOT_PATH builder h ''html'')
           (\<lambda>u. build_for_all ROOT_PATH builder h ''json'')))"

text \<open>The branch on \<open>builder.build_target\<close>.\<close>

definition build_selected :: "string \<Rightarrow> builder \<Rightarrow> host \<Rightarrow> world \<Rightarrow> (exn + unit) \<times> world" where
  "build_selected ROOT_PATH builder h w =
     (if self_build_target builder \<in> set [''pdf'', ''json'', ''epub'', ''html'']
      then build_for_all ROOT_PATH builder h (self_build_target builder) w
      else if self_build_target builder = ''all'' then build_all ROOT_PATH builder h w
      else (Inl (SystemExit 1), w))"

text \<open>The body of the \<open>try\<close> statement of \<open>main\<close>.\<close>

definition try_body :: "string \<Rightarrow> builder \<Rightarrow> host \<Rightarrow> world \<Rightarrow> (exn + unit) \<times> world" where
  "try_body ROOT_PATH builder h w =
     (case prepare_env ROOT_PATH builder h (filesystem w) of
        (Inl e, fs1) \<Rightarrow> (Inl e, w\<lparr>filesystem := fs1\<rparr>)
      | (Inr (ok, builder1), fs1) \<Rightarrow>
          (if \<not> ok then (Inl (SystemExit 1), w\<lparr>filesystem := fs1\<rparr>)
           else and_then (build_selected ROOT_PATH builder1 h)
                  (\<lambda>u. clean_work_dir builder1) (w\<lparr>filesystem := fs1\<rparr>)))"

text \<open>
  \<open>except Exception as e: builder.logger.error(...)\<close>: every exception but \<open>SystemExit\<close>
  is caught and becomes the exit of \<open>Logger.error\<close>.
\<close>

definition except_Exception :: "(exn + 'a) \<times> 's \<Rightarrow> (exn + 'a) \<times> 's" where
  "except_Exception r =
     (case r of
        (Inl (SystemExit n), s) \<Rightarrow> (Inl (SystemExit n), s)
      | (Inl e, s) \<Rightarrow> (Inl (SystemExit 1), s)
      | (Inr v, s) \<Rightarrow> (Inr v, s))"

text \<open>
  \<open>main\<close>, on the parsed arguments.  The constructor and the two short-circuit modes are
  outside the \<open>try\<close> statement, so what they raise leaves \<open>main\<close> as it is.
\<close>

definition main :: "string \<Rightarrow> args \<Rightarrow> host \<Rightarrow> datetime \<Rightarrow> world \<Rightarrow> (exn + unit) \<times> world" where
  "main ROOT_PATH a h now w =
     (case DocumentBuilder_init (main_config ROOT_PATH a) (verbose a) now (heap w) of
        Inl e \<Rightarrow> (Inl e, w)
      | Inr (builder, hp) \<Rightarrow>
          (let w1 = w\<lparr>heap := hp\<rparr> in
           if clean a then
             (if path_exists (filesystem w1) (build_dir (main_config ROOT_PATH a))
              then (case rmtree (build_dir (main_config ROOT_PATH a)) (filesystem w1) of
                      (r, fs1) \<Rightarrow> (r, w1\<lparr>filesystem := fs1\<rparr>))
              else (Inr (), w1))
           else if update_wave_flag a then
             (case update_wave ROOT_PATH h (filesystem w1) of
                (Inl e, fs1) \<Rightarrow> (Inl e, w1\<lparr>filesystem := fs1\<rparr>)
              | (Inr b, fs1) \<Rightarrow> (Inr (), w1\<lparr>filesystem := fs1\<rparr>))
           else except_Exception (try_body ROOT_PATH builder h w1)))"

section \<open>Sample inputs\<close>

text \<open>
  A Debian host on which every package is installed and every command succeeds, whose
  renderer writes the file named after the source and the format of its working directory.
\<close>

definition sample_host :: host where
  "sample_host = \<lparr>
     os_release = Some ''ID=debian'',
     dpkg = (\<lambda>p. Exited 0 (Some ''Status: install ok installed'')),
     apt_get_install = (\<lambda>ps. None),
     bundle_env = None,
     node_env = None,
     git_submodule = (\<lambda>fs. Inr fs),
     renderer = (\<lambda>dir cmd. Inr (take (length (basename dir) - 8) (basename dir), ''rendered'')),
     edn_files = [],
     wavedrom_cli = (\<lambda>w. Some w)\<rparr>"

definition sample_args :: args where
  "sample_args = \<lparr>release_type = ''draft'', arg_version = ''1.4.0'', target = ''all'',
     clean = False, update_wave_flag = False, verbose = False\<rparr>"

definition sample_now :: datetime where
  "sample_now = \<lparr>year = 2026, month = 11, day = 3\<rparr>"

text \<open>The state when the module has been loaded in a checkout at \<open>/r\<close>.\<close>

definition sample_world :: world where
  "sample_world = \<lparr>
     filesystem = [''/r'' \<mapsto> Dir, ''/r/docs-resources/global-config.adoc'' \<mapsto> File ''''],
     heap = module_heap ''/r'',
     cwd = ''/r'',
     runs = []\<rparr>"

text \<open>Diagram sources for the sample host: a marked text, and a listing of three files.\<close>

definition sample_edn :: "string \<Rightarrow> string" where
  "sample_edn x = ''....'' @ [NL] @ x @ [NL] @ ''....'' @ [NL]"

definition sample_wave_host :: host where
  "sample_wave_host = sample_host\<lparr>edn_files :=
     [(''a.edn'', sample_edn ''A''), (''b.edn'', ''no marker''), (''c.edn'', sample_edn ''C'')]\<rparr>"

section \<open>Auxiliary notions\<close>

text \<open>The \<open>work_dir\<close> dict that the loop of \<open>_workdir_setup\<close> leaves when nothing raises.\<close>

fun work_dir_after :: "string \<Rightarrow> string list \<Rightarrow> (string \<rightharpoonup> string) \<Rightarrow> (string \<rightharpoonup> string)" where
  "work_dir_after bdir [] wd = wd"
| "work_dir_after bdir (doc # ds) wd =
     (case build_targs doc of
        Inl e \<Rightarrow> wd
      | Inr t \<Rightarrow> work_dir_after bdir ds (wd(t \<mapsto> workdir_path bdir doc)))"

text \<open>
  \<open>built_in_order ts r w w'\<close>: between the states \<open>w\<close> and \<open>w'\<close> the renderer was run for a prefix
  of the targets \<open>ts\<close>, in this order and for nothing else, and for all of them when the
  result \<open>r\<close> is a return.
\<close>

definition built_in_order :: "string list \<Rightarrow> exn + 'a \<Rightarrow> world \<Rightarrow> world \<Rightarrow> bool" where
  "built_in_order ts r w w' =
     (\<exists>rs. runs w' = runs w @ rs \<and> prefix (map fst rs) ts
           \<and> ((\<exists>v. r = Inr v) \<longrightarrow> map fst rs = ts))"

text \<open>The sample host with a renderer that exits non-zero in the e-book workspace.\<close>

definition epub_failing_host :: host where
  "epub_failing_host = sample_host\<lparr>renderer :=
     (\<lambda>dir cmd. if dir = ''/r/build/openrisc-manual.epub.workdir'' then Inl ''asciidoctor: FAILED''
                 else renderer sample_host dir cmd)\<rparr>"

chapter \<open>Verified properties\<close>

section \<open>The date stamp\<close>

lemma is_digit_digit: "is_digit (digit n)"
  unfolding digit_def is_digit_def by (rule nth_mem) simp

lemma str_nat_digits: "\<forall>c \<in> set (str_nat n). is_digit c"
  by (induction n rule: str_nat.induct) (subst str_nat.simps, simp add: is_digit_digit)

lemma length_str_nat: "0 < k \<Longrightarrow> n < 10 ^ k \<Longrightarrow> length (str_nat n) \<le> k"
proof (induction n arbitrary: k rule: str_nat.induct)
  case (1 n)
  show ?case
  proof (cases "n < 10")
    case True
    then show ?thesis using "1.prems" by (subst str_nat.simps) simp
  next
    case False
    then obtain j where k: "k = Suc j" using "1.prems" by (cases k) auto
    have "0 < j" using False "1.prems" k by (cases j) auto
    moreover have "n div 10 < 10 ^ j" using "1.prems" k by (simp add: less_mult_imp_div_less)
    ultimately have "length (str_nat (n div 10)) \<le> j" using "1.IH"[OF False] by blast
    then show ?thesis using False k by (subst str_nat.simps) simp
  qed
qed

lemma length_str_nat_ge: "10 ^ k \<le> n \<Longrightarrow> k < length (str_nat n)"
proof (induction n arbitrary: k rule: str_nat.induct)
  case (1 n)
  show ?case
  proof (cases "n < 10")
    case True
    have "k = 0"
    proof (cases k)
      case 0
      then show ?thesis .
    next
      case (Suc j)
      have a: "(10::nat) \<le> 10 * 10 ^ j" by simp
      have "10 * 10 ^ j \<le> n" using "1.prems" Suc by simp
      with a have "10 \<le> n" by (rule le_trans)
      then show ?thesis using True by simp
    qed
    then show ?thesis using True by (subst str_nat.simps) simp
  next
    case False
    show ?thesis
    proof (cases k)
      case 0
      then show ?thesis using False by (subst str_nat.simps) simp
    next
      case (Suc j)
      have "10 ^ j \<le> n div 10" using "1.prems" Suc by (simp add: less_eq_div_iff_mult_less_eq)
      then have "j < length (str_nat (n div 10))" using "1.IH"[OF False] by blast
      then show ?thesis using False Suc by (subst str_nat.simps) simp
    qed
  qed
qed

lemma length_zfill: "length s \<le> w \<Longrightarrow> length (zfill w s) = w"
  by (simp add: zfill_def)

lemma is_digit_zero: "is_digit (CHR ''0'')"
  by (simp add: is_digit_def)

lemma zfill_digits: "\<forall>c \<in> set s. is_digit c \<Longrightarrow> \<forall>c \<in> set (zfill w s). is_digit c"
  by (auto simp: zfill_def is_digit_zero)

lemma digit_value_digit: "digit_value (digit n) = n mod 10"
proof -
  have "\<forall>k \<in> set [0..<10]. digit_value (''0123456789'' ! k) = k"
    by (simp add: upt_rec digit_value_def)
  moreover have "n mod 10 \<in> set [0..<10]" by simp
  ultimately show ?thesis unfolding digit_def by blast
qed

lemma int_str_snoc: "int_str (s @ [c]) = 10 * int_str s + digit_value c"
  by (simp add: int_str_def)

lemma int_str_append: "int_str (a @ b) = int_str a * 10 ^ length b + int_str b"
proof (induction b rule: rev_induct)
  case Nil
  then show ?case by (simp add: int_str_def)
next
  case (snoc x xs)
  have "int_str (a @ xs @ [x]) = 10 * int_str (a @ xs) + digit_value x"
    using int_str_snoc[of "a @ xs" x] by simp
  then show ?case by (simp add: snoc.IH int_str_snoc algebra_simps)
qed

lemma int_str_str_nat: "int_str (str_nat n) = n"
proof (induction n rule: str_nat.induct)
  case (1 n)
  show ?case
  proof (cases "n < 10")
    case True
    then show ?thesis by (subst str_nat.simps) (simp add: int_str_def digit_value_digit)
  next
    case False
    then show ?thesis using "1.IH" by (subst str_nat.simps) (simp add: int_str_snoc digit_value_digit)
  qed
qed

lemma int_str_zero: "int_str (replicate k (CHR ''0'') @ s) = int_str s"
  by (induction k) (simp_all add: int_str_def digit_value_def)

lemma int_str_zfill: "int_str (zfill w (str_nat n)) = n"
  by (simp add: zfill_def int_str_zero int_str_str_nat)

lemma strftime_Ymd_digits: "\<forall>c \<in> set (strftime_Ymd t). is_digit c"
  using str_nat_digits[of "year t"] zfill_digits[OF str_nat_digits, of 2 "month t"]
    zfill_digits[OF str_nat_digits, of 2 "day t"]
  by (simp add: strftime_Ymd_def ball_Un)

lemma strftime_Ymd_number:
  assumes "valid_datetime t"
  shows "int_str (strftime_Ymd t) = year t * 10000 + month t * 100 + day t"
proof -
  have "length (str_nat (month t)) \<le> 2"
    using assms length_str_nat[of 2 "month t"] by (simp add: valid_datetime_def)
  then have m: "length (zfill 2 (str_nat (month t))) = 2" by (rule length_zfill)
  have "length (str_nat (day t)) \<le> 2"
    using assms length_str_nat[of 2 "day t"] by (simp add: valid_datetime_def)
  then have d: "length (zfill 2 (str_nat (day t))) = 2" by (rule length_zfill)
  show ?thesis
    by (simp add: strftime_Ymd_def int_str_append m d int_str_zfill int_str_str_nat)
qed

lemma strftime_Ymd_form:
  assumes "valid_datetime t" and "1000 \<le> year t"
  shows "length (strftime_Ymd t) = 8"
    and "int_str (take 4 (strftime_Ymd t)) = year t"
    and "int_str (take 2 (drop 4 (strftime_Ymd t))) = month t"
    and "int_str (drop 6 (strftime_Ymd t)) = day t"
proof -
  have "length (str_nat (year t)) \<le> 4"
    using assms length_str_nat[of 4 "year t"] by (simp add: valid_datetime_def)
  moreover have "3 < length (str_nat (year t))"
    using assms(2) length_str_nat_ge[of 3 "year t"] by simp
  ultimately have y: "length (str_nat (year t)) = 4" by simp
  have "length (str_nat (month t)) \<le> 2"
    using assms length_str_nat[of 2 "month t"] by (simp add: valid_datetime_def)
  then have m: "length (zfill 2 (str_nat (month t))) = 2" by (rule length_zfill)
  have "length (str_nat (day t)) \<le> 2"
    using assms length_str_nat[of 2 "day t"] by (simp add: valid_datetime_def)
  then have d: "length (zfill 2 (str_nat (day t))) = 2" by (rule length_zfill)
  show "length (strftime_Ymd t) = 8" by (simp add: strftime_Ymd_def y m d)
  show "int_str (take 4 (strftime_Ymd t)) = year t"
    by (simp add: strftime_Ymd_def y int_str_str_nat)
  show "int_str (take 2 (drop 4 (strftime_Ymd t))) = month t"
    by (simp add: strftime_Ymd_def y m int_str_zfill)
  show "int_str (drop 6 (strftime_Ymd t)) = day t"
    by (simp add: strftime_Ymd_def y m int_str_zfill)
qed

lemma date_stamp:
  assumes "valid_datetime t"
  shows "(\<forall>c \<in> set (strftime_Ymd t). is_digit c)
       \<and> int_str (strftime_Ymd t) = year t * 10000 + month t * 100 + day t
       \<and> (1000 \<le> year t \<longrightarrow>
             length (strftime_Ymd t) = 8
           \<and> int_str (take 4 (strftime_Ymd t)) = year t
           \<and> int_str (take 2 (drop 4 (strftime_Ymd t))) = month t
           \<and> int_str (drop 6 (strftime_Ymd t)) = day t)"
  using strftime_Ymd_digits[of t] strftime_Ymd_number[OF assms] strftime_Ymd_form[OF assms]
  by blast

section \<open>The options assembled by the constructor\<close>

lemma init_result:
  assumes "init_docs cfg = Inr ds" and "getitem (type_config cfg) (default_type cfg) = Inr tc"
  shows "\<exists>b h'. DocumentBuilder_init cfg vb now h = Inr (b, h')
       \<and> self_options b = OPTIONS_ref \<and> self_docs b = ds
       \<and> h' = h(OPTIONS_ref := h OPTIONS_ref @
            [watermark_opt tc,
             ''-a revnumber='' @ (if default_type cfg = ''draft'' then strftime_Ymd now else version cfg),
             ''-a revremark='' @ description tc])"
  using assms by (simp add: DocumentBuilder_init_def append_def Let_def)

lemma OPTIONS_flags:
  "filter is_revnumber_flag (OPTIONS root) = []"
  "filter is_revremark_flag (OPTIONS root) = []"
  "filter is_watermark_flag (OPTIONS root) = []"
  by (simp_all add: OPTIONS_def is_revnumber_flag_def is_revremark_flag_def is_watermark_flag_def)

lemma flag_simps:
  "is_revnumber_flag (''-a revnumber='' @ v)" "\<not> is_revremark_flag (''-a revnumber='' @ v)"
  "\<not> is_watermark_flag (''-a revnumber='' @ v)"
  "is_revremark_flag (''-a revremark='' @ v)" "\<not> is_revnumber_flag (''-a revremark='' @ v)"
  "\<not> is_watermark_flag (''-a revremark='' @ v)"
  "is_watermark_flag ''-a draft-watermark''" "\<not> is_revnumber_flag ''-a draft-watermark''"
  "\<not> is_revremark_flag ''-a draft-watermark''"
  "\<not> is_watermark_flag []" "\<not> is_revnumber_flag []" "\<not> is_revremark_flag []"
  by (simp_all add: is_revnumber_flag_def is_revremark_flag_def is_watermark_flag_def)

lemma type_config_lookup:
  "release_type a = ''draft'' \<Longrightarrow> getitem (type_config (main_config root a)) (default_type (main_config root a))
      = Inr \<lparr>watermark_opt = ''-a draft-watermark'', description = [sq] @ ''DRAFT---NOT AN OFFICIAL RELEASE'' @ [sq]\<rparr>"
  "release_type a = ''intermediate'' \<Longrightarrow> getitem (type_config (main_config root a)) (default_type (main_config root a))
      = Inr \<lparr>watermark_opt = [], description = [sq] @ ''Intermediate Release'' @ [sq]\<rparr>"
  "release_type a = ''official'' \<Longrightarrow> getitem (type_config (main_config root a)) (default_type (main_config root a))
      = Inr \<lparr>watermark_opt = [], description = [sq] @ ''Official Release'' @ [sq]\<rparr>"
  by (simp_all add: main_config_def CONFIGS_def getitem_def)

lemma init_docs_targets:
  "target a = ''all'' \<Longrightarrow> init_docs (main_config root a) =
     Inr [''openrisc-manual-norm-tags.json'', ''openrisc-manual.pdf'', ''openrisc-manual.html'', ''openrisc-manual.epub'']"
  "target a = ''pdf'' \<Longrightarrow> init_docs (main_config root a) = Inr [''openrisc-manual.pdf'']"
  "target a = ''html'' \<Longrightarrow> init_docs (main_config root a) = Inr [''openrisc-manual.html'']"
  "target a = ''epub'' \<Longrightarrow> init_docs (main_config root a) = Inr [''openrisc-manual.epub'']"
  "target a = ''tags'' \<Longrightarrow> init_docs (main_config root a) = Inl (KeyError ''tags'')"
  by (simp_all add: main_config_def CONFIGS_def getitem_def init_docs_def)


lemma main_config_fields:
  "default_type (main_config root a) = release_type a"
  "version (main_config root a) = arg_version a"
  "build_target (main_config root a) = target a"
  by (simp_all add: main_config_def)

lemma init_docs_ok:
  assumes "target a \<in> {''all'', ''pdf'', ''html'', ''epub''}"
  shows "\<exists>ds. init_docs (main_config root a) = Inr ds"
  using assms init_docs_targets[of a root] by auto

lemma type_config_ok:
  assumes "release_type a \<in> {''draft'', ''intermediate'', ''official''}"
  shows "\<exists>tc. getitem (type_config (main_config root a)) (default_type (main_config root a)) = Inr tc
     \<and> (watermark_opt tc = (if release_type a = ''draft'' then ''-a draft-watermark'' else []))"
  using assms type_config_lookup[of a root] by auto

lemma init_main_config:
  assumes "release_type a \<in> {''draft'', ''intermediate'', ''official''}"
      and "target a \<in> {''all'', ''pdf'', ''html'', ''epub''}"
  shows "\<exists>b h' d. DocumentBuilder_init (main_config root a) vb now h = Inr (b, h')
       \<and> self_options b = OPTIONS_ref
       \<and> h' = h(OPTIONS_ref := h OPTIONS_ref @
            [if release_type a = ''draft'' then ''-a draft-watermark'' else [],
             ''-a revnumber='' @ (if release_type a = ''draft'' then strftime_Ymd now else arg_version a),
             ''-a revremark='' @ d])"
proof -
  obtain ds where ds: "init_docs (main_config root a) = Inr ds"
    using init_docs_ok[OF assms(2)] by blast
  obtain tc where tc: "getitem (type_config (main_config root a)) (default_type (main_config root a)) = Inr tc"
    and wm: "watermark_opt tc = (if release_type a = ''draft'' then ''-a draft-watermark'' else [])"
    using type_config_ok[OF assms(1)] by blast
  from init_result[OF ds tc, of vb now h] show ?thesis
    by (simp only: wm main_config_fields) blast
qed

lemma module_heap_OPTIONS: "module_heap root OPTIONS_ref = OPTIONS root"
  by (simp add: module_heap_def)

lemma init_appends:
  assumes "release_type a \<in> {''draft'', ''intermediate'', ''official''}"
      and "target a \<in> {''all'', ''pdf'', ''html'', ''epub''}"
  shows "\<exists>b h' w r d. DocumentBuilder_init (main_config root a) vb now h = Inr (b, h')
       \<and> self_options b = OPTIONS_ref
       \<and> h' = h(OPTIONS_ref := h OPTIONS_ref @ [w, r, d])
       \<and> w = (if release_type a = ''draft'' then ''-a draft-watermark'' else [])
       \<and> r = ''-a revnumber='' @ (if release_type a = ''draft'' then strftime_Ymd now else arg_version a)
       \<and> is_revnumber_flag r \<and> \<not> is_revremark_flag r \<and> \<not> is_watermark_flag r
       \<and> is_revremark_flag d \<and> \<not> is_revnumber_flag d \<and> \<not> is_watermark_flag d
       \<and> \<not> is_revnumber_flag w \<and> \<not> is_revremark_flag w
       \<and> (is_watermark_flag w \<longleftrightarrow> release_type a = ''draft'')"
proof -
  obtain b h' d where init: "DocumentBuilder_init (main_config root a) vb now h = Inr (b, h')"
    and ref: "self_options b = OPTIONS_ref"
    and h': "h' = h(OPTIONS_ref := h OPTIONS_ref @
            [if release_type a = ''draft'' then ''-a draft-watermark'' else [],
             ''-a revnumber='' @ (if release_type a = ''draft'' then strftime_Ymd now else arg_version a),
             ''-a revremark='' @ d])"
    using init_main_config[OF assms, of root vb now h] by blast
  define w where "w = (if release_type a = ''draft'' then ''-a draft-watermark'' else [])"
  define r where "r = ''-a revnumber='' @ (if release_type a = ''draft'' then strftime_Ymd now else arg_version a)"
  define d' where "d' = ''-a revremark='' @ d"
  have w: "\<not> is_revnumber_flag w" "\<not> is_revremark_flag w" "is_watermark_flag w \<longleftrightarrow> release_type a = ''draft''"
    unfolding w_def using flag_simps(7-12) by (cases "release_type a = ''draft''"; simp only: if_True if_False simp_thms)+
  have r: "is_revnumber_flag r" "\<not> is_revremark_flag r" "\<not> is_watermark_flag r"
    unfolding r_def by (rule flag_simps)+
  have d: "is_revremark_flag d'" "\<not> is_revnumber_flag d'" "\<not> is_watermark_flag d'"
    unfolding d'_def by (rule flag_simps)+
  have "h' = h(OPTIONS_ref := h OPTIONS_ref @ [w, r, d'])"
    unfolding h' w_def r_def d'_def ..
  with init ref w r d w_def r_def show ?thesis by blast
qed

text \<open>
  Claim C1.  For each of the three release profiles, the options sequence that the
  constructor called by \<open>main\<close> assembles from the freshly loaded module contains exactly one
  \<open>revnumber\<close> flag and exactly one \<open>revremark\<close> flag, and it contains a watermark flag
  exactly when the profile is draft.  The targets are those for which construction succeeds.
\<close>

theorem options_flags_per_profile:
  assumes "release_type a \<in> {''draft'', ''intermediate'', ''official''}"
      and "target a \<in> {''all'', ''pdf'', ''html'', ''epub''}"
  shows "\<exists>b h'. DocumentBuilder_init (main_config root a) vb now (module_heap root) = Inr (b, h')
       \<and> length (filter is_revnumber_flag (h' (self_options b))) = 1
       \<and> length (filter is_revremark_flag (h' (self_options b))) = 1
       \<and> ((\<exists>x \<in> set (h' (self_options b)). is_watermark_flag x) \<longleftrightarrow> release_type a = ''draft'')"
proof -
  obtain b h' w r d where init: "DocumentBuilder_init (main_config root a) vb now (module_heap root) = Inr (b, h')"
    and ref: "self_options b = OPTIONS_ref"
    and h': "h' = (module_heap root)(OPTIONS_ref := module_heap root OPTIONS_ref @ [w, r, d])"
    and fl: "is_revnumber_flag r" "\<not> is_revremark_flag r" "\<not> is_watermark_flag r"
       "is_revremark_flag d" "\<not> is_revnumber_flag d" "\<not> is_watermark_flag d"
       "\<not> is_revnumber_flag w" "\<not> is_revremark_flag w"
       "is_watermark_flag w \<longleftrightarrow> release_type a = ''draft''"
    using init_appends[OF assms, of root vb now "module_heap root"] by blast
  have opts: "h' (self_options b) = OPTIONS root @ [w, r, d]"
    by (simp add: ref h' module_heap_OPTIONS)
  have n: "length (filter is_revnumber_flag (h' (self_options b))) = 1"
    by (simp add: opts OPTIONS_flags fl)
  have r: "length (filter is_revremark_flag (h' (self_options b))) = 1"
    by (simp add: opts OPTIONS_flags fl)
  have "filter is_watermark_flag (h' (self_options b)) = (if release_type a = ''draft'' then [w] else [])"
    by (simp add: opts OPTIONS_flags fl)
  then have w: "(\<exists>x \<in> set (h' (self_options b)). is_watermark_flag x) \<longleftrightarrow> release_type a = ''draft''"
    by (metis (full_types) filter_empty_conv list.discI)
  from init n r w show ?thesis by blast
qed


theorem options_flags_per_profile_witness:
  "release_type \<lparr>release_type = ''intermediate'', arg_version = ''1.4.0'', target = ''all'',
       clean = False, update_wave_flag = False, verbose = False\<rparr> \<in> {''draft'', ''intermediate'', ''official''}
   \<and> (\<exists>b h'. DocumentBuilder_init
         (main_config ''/r'' \<lparr>release_type = ''intermediate'', arg_version = ''1.4.0'', target = ''all'',
            clean = False, update_wave_flag = False, verbose = False\<rparr>)
         False \<lparr>year = 2026, month = 11, day = 3\<rparr> (module_heap ''/r'') = Inr (b, h')
       \<and> length (filter is_revnumber_flag (h' (self_options b))) = 1
       \<and> length (filter is_revremark_flag (h' (self_options b))) = 1
       \<and> \<not> (\<exists>x \<in> set (h' (self_options b)). is_watermark_flag x))"
  using options_flags_per_profile[of "\<lparr>release_type = ''intermediate'', arg_version = ''1.4.0'',
       target = ''all'', clean = False, update_wave_flag = False, verbose = False\<rparr>"
       "''/r''" False "\<lparr>year = 2026, month = 11, day = 3\<rparr>"]
  by simp

text \<open>
  Claim C7.  With the draft profile the options hold the watermark flag and one revision
  flag, whose value is the date of the invocation: decimal digits that read as the number
  \<open>year * 10000 + month * 100 + day\<close>, and for a year of four digits exactly eight of them,
  four that read as the year, two as the month and two as the day.  With the official
  profile and version 2.0.0 they hold the revision flag \<open>2.0.0\<close> and no watermark flag.
\<close>

theorem scenario_flags:
  assumes "target a \<in> {''all'', ''pdf'', ''html'', ''epub''}"
  shows "(release_type a = ''draft'' \<longrightarrow>
           (\<exists>b h'. DocumentBuilder_init (main_config root a) vb now (module_heap root) = Inr (b, h')
              \<and> (\<exists>x \<in> set (h' (self_options b)). is_watermark_flag x)
              \<and> filter is_revnumber_flag (h' (self_options b)) = [''-a revnumber='' @ strftime_Ymd now]
              \<and> (valid_datetime now \<longrightarrow>
                    (\<forall>c \<in> set (strftime_Ymd now). is_digit c)
                  \<and> int_str (strftime_Ymd now) = year now * 10000 + month now * 100 + day now
                  \<and> (1000 \<le> year now \<longrightarrow>
                        length (strftime_Ymd now) = 8
                      \<and> int_str (take 4 (strftime_Ymd now)) = year now
                      \<and> int_str (take 2 (drop 4 (strftime_Ymd now))) = month now
                      \<and> int_str (drop 6 (strftime_Ymd now)) = day now))))
       \<and> (release_type a = ''official'' \<and> arg_version a = ''2.0.0'' \<longrightarrow>
           (\<exists>b h'. DocumentBuilder_init (main_config root a) vb now (module_heap root) = Inr (b, h')
              \<and> filter is_revnumber_flag (h' (self_options b)) = [''-a revnumber=2.0.0'']
              \<and> \<not> (\<exists>x \<in> set (h' (self_options b)). is_watermark_flag x)))"
proof (intro conjI impI)
  assume dr: "release_type a = ''draft''"
  then have ty: "release_type a \<in> {''draft'', ''intermediate'', ''official''}" by simp
  obtain b h' w r d where init: "DocumentBuilder_init (main_config root a) vb now (module_heap root) = Inr (b, h')"
    and ref: "self_options b = OPTIONS_ref"
    and h': "h' = (module_heap root)(OPTIONS_ref := module_heap root OPTIONS_ref @ [w, r, d])"
    and r: "r = ''-a revnumber='' @ (if release_type a = ''draft'' then strftime_Ymd now else arg_version a)"
    and fl: "is_revnumber_flag r" "\<not> is_revnumber_flag d" "\<not> is_revnumber_flag w"
       "is_watermark_flag w \<longleftrightarrow> release_type a = ''draft''"
    using init_appends[OF ty assms, of root vb now "module_heap root"] by blast
  have opts: "h' (self_options b) = OPTIONS root @ [w, r, d]"
    by (simp add: ref h' module_heap_OPTIONS)
  have r': "r = ''-a revnumber='' @ strftime_Ymd now" unfolding r using dr by simp
  have 1: "\<exists>x \<in> set (h' (self_options b)). is_watermark_flag x"
    using fl(4) dr by (simp add: opts)
  have "filter is_revnumber_flag (h' (self_options b)) = [r]"
    by (simp add: opts OPTIONS_flags fl)
  then have 2: "filter is_revnumber_flag (h' (self_options b)) = [''-a revnumber='' @ strftime_Ymd now]"
    by (simp only: r')
  from init 1 2 date_stamp[of now]
  show "\<exists>b h'. DocumentBuilder_init (main_config root a) vb now (module_heap root) = Inr (b, h')
              \<and> (\<exists>x \<in> set (h' (self_options b)). is_watermark_flag x)
              \<and> filter is_revnumber_flag (h' (self_options b)) = [''-a revnumber='' @ strftime_Ymd now]
              \<and> (valid_datetime now \<longrightarrow>
                    (\<forall>c \<in> set (strftime_Ymd now). is_digit c)
                  \<and> int_str (strftime_Ymd now) = year now * 10000 + month now * 100 + day now
                  \<and> (1000 \<le> year now \<longrightarrow>
                        length (strftime_Ymd now) = 8
                      \<and> int_str (take 4 (strftime_Ymd now)) = year now
                      \<and> int_str (take 2 (drop 4 (strftime_Ymd now))) = month now
                      \<and> int_str (drop 6 (strftime_Ymd now)) = day now))"
    by blast
next
  assume off: "release_type a = ''official'' \<and> arg_version a = ''2.0.0''"
  then have ty: "release_type a \<in> {''draft'', ''intermediate'', ''official''}" by simp
  have nd: "release_type a \<noteq> ''draft''" using off by simp
  obtain b h' w r d where init: "DocumentBuilder_init (main_config root a) vb now (module_heap root) = Inr (b, h')"
    and ref: "self_options b = OPTIONS_ref"
    and h': "h' = (module_heap root)(OPTIONS_ref := module_heap root OPTIONS_ref @ [w, r, d])"
    and r: "r = ''-a revnumber='' @ (if release_type a = ''draft'' then strftime_Ymd now else arg_version a)"
    and fl: "is_revnumber_flag r" "\<not> is_revnumber_flag d" "\<not> is_revnumber_flag w"
       "\<not> is_watermark_flag r" "\<not> is_watermark_flag d"
       "is_watermark_flag w \<longleftrightarrow> release_type a = ''draft''"
    using init_appends[OF ty assms, of root vb now "module_heap root"] by blast
  have opts: "h' (self_options b) = OPTIONS root @ [w, r, d]"
    by (simp add: ref h' module_heap_OPTIONS)
  have r': "r = ''-a revnumber=2.0.0''" unfolding r using off nd by simp
  have "filter is_watermark_flag (h' (self_options b)) = []"
    using nd by (simp add: opts OPTIONS_flags fl)
  then have 1: "\<not> (\<exists>x \<in> set (h' (self_options b)). is_watermark_flag x)"
    by (simp only: filter_empty_conv) blast
  have "filter is_revnumber_flag (h' (self_options b)) = [r]"
    by (simp add: opts OPTIONS_flags fl)
  then have 2: "filter is_revnumber_flag (h' (self_options b)) = [''-a revnumber=2.0.0'']"
    by (simp only: r')
  from init 1 2
  show "\<exists>b h'. DocumentBuilder_init (main_config root a) vb now (module_heap root) = Inr (b, h')
              \<and> filter is_revnumber_flag (h' (self_options b)) = [''-a revnumber=2.0.0'']
              \<and> \<not> (\<exists>x \<in> set (h' (self_options b)). is_watermark_flag x)"
    by blast
qed

lemma strftime_example: "strftime_Ymd \<lparr>year = 2026, month = 11, day = 3\<rparr> = ''20261103''"
  by code_simp

lemma valid_example: "valid_datetime \<lparr>year = 2026, month = 11, day = 3\<rparr>"
  by (simp add: valid_datetime_def)

theorem scenario_flags_witness:
  "valid_datetime \<lparr>year = 2026, month = 11, day = 3\<rparr>
   \<and> 1000 \<le> year \<lparr>year = 2026, month = 11, day = 3\<rparr>
   \<and> (\<exists>b h'. DocumentBuilder_init
         (main_config ''/r'' \<lparr>release_type = ''draft'', arg_version = ''1.4.0'', target = ''pdf'',
            clean = False, update_wave_flag = False, verbose = False\<rparr>)
         False \<lparr>year = 2026, month = 11, day = 3\<rparr> (module_heap ''/r'') = Inr (b, h')
       \<and> (\<exists>x \<in> set (h' (self_options b)). is_watermark_flag x)
       \<and> filter is_revnumber_flag (h' (self_options b)) = [''-a revnumber=20261103'']
       \<and> int_str ''20261103'' = 2026 * 10000 + 11 * 100 + 3
       \<and> int_str (take 4 ''20261103'') = 2026
       \<and> int_str (take 2 (drop 4 ''20261103'')) = 11
       \<and> int_str (drop 6 ''20261103'') = 3)
   \<and> (\<exists>b h'. DocumentBuilder_init
         (main_config ''/r'' \<lparr>release_type = ''official'', arg_version = ''2.0.0'', target = ''html'',
            clean = False, update_wave_flag = False, verbose = False\<rparr>)
         False \<lparr>year = 2026, month = 11, day = 3\<rparr> (module_heap ''/r'') = Inr (b, h')
       \<and> filter is_revnumber_flag (h' (self_options b)) = [''-a revnumber=2.0.0'']
       \<and> \<not> (\<exists>x \<in> set (h' (self_options b)). is_watermark_flag x))"
  using scenario_flags[of "\<lparr>release_type = ''draft'', arg_version = ''1.4.0'', target = ''pdf'',
            clean = False, update_wave_flag = False, verbose = False\<rparr>"
          "''/r''" False "\<lparr>year = 2026, month = 11, day = 3\<rparr>"]
        scenario_flags[of "\<lparr>release_type = ''official'', arg_version = ''2.0.0'', target = ''html'',
            clean = False, update_wave_flag = False, verbose = False\<rparr>"
          "''/r''" False "\<lparr>year = 2026, month = 11, day = 3\<rparr>"]
  by (simp add: strftime_example valid_example) blast


text \<open>
  Claim C9.  The builder's options field is the reference of the module-level \<open>OPTIONS\<close>
  list, so construction appends the three per-profile flags to that list itself.  A second
  construction in the same process appends three more: its options hold two revision flags
  and two description flags, where the first construction had left one, and the first
  builder reads the same list.
\<close>

theorem second_builder_duplicates_flags:
  assumes "release_type a1 \<in> {''draft'', ''intermediate'', ''official''}"
      and "target a1 \<in> {''all'', ''pdf'', ''html'', ''epub''}"
      and "release_type a2 \<in> {''draft'', ''intermediate'', ''official''}"
      and "target a2 \<in> {''all'', ''pdf'', ''html'', ''epub''}"
  shows "\<exists>b1 h1 b2 h2 f1 f2.
           DocumentBuilder_init (main_config root a1) vb1 now1 (module_heap root) = Inr (b1, h1)
         \<and> DocumentBuilder_init (main_config root a2) vb2 now2 h1 = Inr (b2, h2)
         \<and> self_options b1 = OPTIONS_ref \<and> self_options b2 = OPTIONS_ref
         \<and> length f1 = 3 \<and> length f2 = 3
         \<and> h1 OPTIONS_ref = OPTIONS root @ f1
         \<and> h2 OPTIONS_ref = OPTIONS root @ f1 @ f2
         \<and> length (filter is_revnumber_flag (h1 (self_options b1))) = 1
         \<and> length (filter is_revnumber_flag (h2 (self_options b2))) = 2
         \<and> length (filter is_revremark_flag (h2 (self_options b2))) = 2
         \<and> h2 (self_options b1) = h2 (self_options b2)"
proof -
  obtain b1 h1 w1 r1 d1 where init1:
        "DocumentBuilder_init (main_config root a1) vb1 now1 (module_heap root) = Inr (b1, h1)"
    and ref1: "self_options b1 = OPTIONS_ref"
    and h1: "h1 = (module_heap root)(OPTIONS_ref := module_heap root OPTIONS_ref @ [w1, r1, d1])"
    and fl1: "is_revnumber_flag r1" "\<not> is_revremark_flag r1"
       "is_revremark_flag d1" "\<not> is_revnumber_flag d1"
       "\<not> is_revnumber_flag w1" "\<not> is_revremark_flag w1"
    using init_appends[OF assms(1,2), of root vb1 now1 "module_heap root"] by blast
  obtain b2 h2 w2 r2 d2 where init2:
        "DocumentBuilder_init (main_config root a2) vb2 now2 h1 = Inr (b2, h2)"
    and ref2: "self_options b2 = OPTIONS_ref"
    and h2: "h2 = h1(OPTIONS_ref := h1 OPTIONS_ref @ [w2, r2, d2])"
    and fl2: "is_revnumber_flag r2" "\<not> is_revremark_flag r2"
       "is_revremark_flag d2" "\<not> is_revnumber_flag d2"
       "\<not> is_revnumber_flag w2" "\<not> is_revremark_flag w2"
    using init_appends[OF assms(3,4), of root vb2 now2 h1] by blast
  have o1: "h1 OPTIONS_ref = OPTIONS root @ [w1, r1, d1]"
    by (simp add: h1 module_heap_OPTIONS)
  have o2: "h2 OPTIONS_ref = OPTIONS root @ [w1, r1, d1] @ [w2, r2, d2]"
    by (simp add: h2 o1)
  have c1: "length (filter is_revnumber_flag (h1 (self_options b1))) = 1"
    by (simp add: ref1 o1 OPTIONS_flags fl1)
  have c2: "length (filter is_revnumber_flag (h2 (self_options b2))) = 2"
    by (simp add: ref2 o2 OPTIONS_flags fl1 fl2)
  have c3: "length (filter is_revremark_flag (h2 (self_options b2))) = 2"
    by (simp add: ref2 o2 OPTIONS_flags fl1 fl2)
  have al: "h2 (self_options b1) = h2 (self_options b2)"
    by (simp only: ref1 ref2)
  have l1: "length [w1, r1, d1] = 3" and l2: "length [w2, r2, d2] = 3" by simp_all
  from init1 init2 ref1 ref2 l1 l2 o1 o2 c1 c2 c3 al show ?thesis by blast
qed

theorem second_builder_duplicates_flags_witness:
  "release_type \<lparr>release_type = ''draft'', arg_version = ''1.4.0'', target = ''all'',
       clean = False, update_wave_flag = False, verbose = False\<rparr> \<in> {''draft'', ''intermediate'', ''official''}
   \<and> (\<exists>b1 h1 b2 h2.
           DocumentBuilder_init (main_config ''/r'' \<lparr>release_type = ''draft'', arg_version = ''1.4.0'',
               target = ''all'', clean = False, update_wave_flag = False, verbose = False\<rparr>)
             False \<lparr>year = 2026, month = 11, day = 3\<rparr> (module_heap ''/r'') = Inr (b1, h1)
         \<and> DocumentBuilder_init (main_config ''/r'' \<lparr>release_type = ''official'', arg_version = ''2.0.0'',
               target = ''html'', clean = False, update_wave_flag = False, verbose = False\<rparr>)
             False \<lparr>year = 2026, month = 11, day = 4\<rparr> h1 = Inr (b2, h2)
         \<and> length (filter is_revnumber_flag (h1 (self_options b1))) = 1
         \<and> length (filter is_revnumber_flag (h2 (self_options b2))) = 2)"
  using second_builder_duplicates_flags[of
      "\<lparr>release_type = ''draft'', arg_version = ''1.4.0'',
               target = ''all'', clean = False, update_wave_flag = False, verbose = False\<rparr>"
      "\<lparr>release_type = ''official'', arg_version = ''2.0.0'',
               target = ''html'', clean = False, update_wave_flag = False, verbose = False\<rparr>"
      "''/r''" False "\<lparr>year = 2026, month = 11, day = 3\<rparr>" False "\<lparr>year = 2026, month = 11, day = 4\<rparr>"]
  by simp blast

section \<open>Diagram extraction and regeneration\<close>

lemma split_not_Nil: "split c s \<noteq> []"
  by (induction s) (auto split: list.splits)

lemma join_Cons_Cons: "join sep ((x # y) # ys) = x # join sep (y # ys)"
  by (cases ys) auto

lemma join_split: "join [c] (split c s) = s"
proof (induction s)
  case Nil
  then show ?case by simp
next
  case (Cons x xs)
  obtain y ys where sp: "split c xs = y # ys" using split_not_Nil[of c xs] by (cases "split c xs") auto
  show ?case using Cons by (simp add: sp join_Cons_Cons)
qed

lemma split_free: "l \<in> set (split c s) \<Longrightarrow> c \<notin> set l"
proof (induction s arbitrary: l)
  case Nil
  then show ?case by simp
next
  case (Cons x xs)
  obtain y ys where sp: "split c xs = y # ys" using split_not_Nil[of c xs] by (cases "split c xs") auto
  show ?case using Cons by (auto simp: sp split: if_splits)
qed

lemma line_is_end_aux:
  assumes "c \<notin> set l" "c \<notin> set m" "r = [] \<or> hd r = c"
  shows "(prefix m (l @ r) \<and> (drop (length m) (l @ r) = [] \<or> hd (drop (length m) (l @ r)) = c)) \<longleftrightarrow> l = m"
  using assms
proof (induction m arbitrary: l)
  case Nil
  then show ?case by (cases l) auto
next
  case (Cons y ys)
  show ?case
  proof (cases l)
    case Nil
    then show ?thesis using Cons.prems by (cases r) auto
  next
    case (Cons x xs)
    then show ?thesis using Cons.IH[of xs] Cons.prems by auto
  qed
qed

lemma line_is_end:
  assumes "c \<notin> set l" "c \<notin> set m" "r = [] \<or> hd r = c" "length m = n"
  shows "(prefix m (l @ r) \<and> (drop n (l @ r) = [] \<or> hd (drop n (l @ r)) = c)) \<longleftrightarrow> l = m"
  using line_is_end_aux[OF assms(1-3)] assms(4) by blast

lemma line_is_start:
  assumes "c \<notin> set l" "c \<notin> set m"
  shows "prefix (m @ [c]) (l @ c # rest) \<longleftrightarrow> l = m"
  using assms
proof (induction m arbitrary: l)
  case Nil
  then show ?case by (cases l) auto
next
  case (Cons y ys)
  show ?case
  proof (cases l)
    case Nil
    then show ?thesis using Cons.prems by auto
  next
    case (Cons x xs)
    then show ?thesis using Cons.IH[of xs] Cons.prems by auto
  qed
qed

lemma last_line_no_start:
  assumes "c \<notin> set l"
  shows "\<not> prefix (m @ [c]) l"
  using assms by (auto simp: prefix_def)


lemma not_at_end_marker: "c \<noteq> NL \<Longrightarrow> \<not> at_end_marker (c # s)" "\<not> at_end_marker []"
  by (auto simp: at_end_marker_def)

lemma lazy_skip_line: "NL \<notin> set l \<Longrightarrow> lazy_group acc (l @ s) = lazy_group (rev l @ acc) s"
  by (induction l arbitrary: acc) (auto simp: not_at_end_marker)

lemma at_end_marker_line:
  assumes "NL \<notin> set l" "r = [] \<or> hd r = NL"
  shows "at_end_marker (NL # l @ r) \<longleftrightarrow> l = marker"
proof -
  have "at_end_marker (NL # l @ r) = (prefix ''....'' (l @ r) \<and> (drop 4 (l @ r) = [] \<or> hd (drop 4 (l @ r)) = NL))"
    by (simp add: at_end_marker_def)
  also have "\<dots> = (l = ''....'')"
    by (rule line_is_end[OF assms(1) _ assms(2)]) simp_all
  finally show ?thesis by (simp add: marker_def)
qed

lemma at_end_marker_join:
  assumes "NL \<notin> set l"
  shows "at_end_marker (NL # join [NL] (l # ls)) \<longleftrightarrow> l = marker"
proof (cases ls)
  case Nil
  then show ?thesis using at_end_marker_line[OF assms, of "[]"] by simp
next
  case (Cons a as)
  then show ?thesis using at_end_marker_line[OF assms, of "NL # join [NL] (a # as)"] by simp
qed

lemma lazy_found:
  assumes "mid \<noteq> []" "\<forall>l \<in> set mid. NL \<notin> set l" "marker \<notin> set mid"
  shows "lazy_group acc (join [NL] (mid @ marker # post)) = Some (rev acc @ join [NL] mid)"
  using assms
proof (induction mid arbitrary: acc rule: list_nonempty_induct)
  case (single m)
  have "join [NL] ([m] @ marker # post) = m @ NL # join [NL] (marker # post)" by simp
  moreover have "at_end_marker (NL # join [NL] (marker # post))"
    using at_end_marker_join[of marker post] by (simp add: marker_def)
  ultimately show ?case using single by (simp add: lazy_skip_line)
next
  case (cons m ms)
  obtain m' ms' where ms: "ms = m' # ms'" using cons.hyps by (cases ms) auto
  have j: "join [NL] (m # ms @ marker # post) = m @ NL # join [NL] (ms @ marker # post)"
    by (simp add: ms)
  have "\<not> at_end_marker (NL # join [NL] (ms @ marker # post))"
    using at_end_marker_join[of m' "ms' @ marker # post"] cons.prems by (auto simp: ms)
  then have "lazy_group acc (join [NL] ((m # ms) @ marker # post))
             = lazy_group (NL # rev m @ acc) (join [NL] (ms @ marker # post))"
    using cons.prems by (simp add: j lazy_skip_line del: join.simps)
  also have "\<dots> = Some (rev (NL # rev m @ acc) @ join [NL] ms)"
    using cons.IH[of "NL # rev m @ acc"] cons.prems by simp
  finally show ?case by (simp add: ms)
qed

lemma lazy_none:
  assumes "\<forall>l \<in> set ls. NL \<notin> set l" "marker \<notin> set ls"
  shows "lazy_group acc (join [NL] ls) = None"
  using assms
proof (induction ls arbitrary: acc)
  case Nil
  then show ?case by (simp add: not_at_end_marker)
next
  case (Cons l ls)
  show ?case
  proof (cases ls)
    case Nil
    then show ?thesis using Cons.prems lazy_skip_line[of l acc "[]"] by (simp add: not_at_end_marker)
  next
    case (Cons l' ls')
    have j: "join [NL] (l # ls) = l @ NL # join [NL] ls" by (simp add: Cons)
    have "\<not> at_end_marker (NL # join [NL] ls)"
      using at_end_marker_join[of l' ls'] Cons.prems Cons by auto
    then have "lazy_group acc (join [NL] (l # ls)) = lazy_group (NL # rev l @ acc) (join [NL] ls)"
      using Cons.prems by (simp add: j lazy_skip_line)
    then show ?thesis using Cons.IH[of "NL # rev l @ acc"] Cons.prems by simp
  qed
qed

lemma match_at_False: "match_at False s = None"
  by (simp add: match_at_def)

lemma search_skip_False: "NL \<notin> set l \<Longrightarrow> re_search False (l @ NL # rest) = re_search True rest"
  by (induction l) (auto simp: match_at_False)

lemma search_False_last: "NL \<notin> set l \<Longrightarrow> re_search False l = None"
  by (induction l) (auto simp: match_at_False)

lemma search_skip_line:
  assumes "NL \<notin> set l" "match_at True (l @ NL # rest) = None"
  shows "re_search True (l @ NL # rest) = re_search True rest"
proof (cases l)
  case Nil
  then show ?thesis using assms by simp
next
  case (Cons x xs)
  then have "x \<noteq> NL" using assms(1) by auto
  then show ?thesis using Cons assms search_skip_False[of xs rest] by simp
qed

lemma match_at_other_line:
  assumes "NL \<notin> set l" "l \<noteq> marker"
  shows "match_at True (l @ NL # rest) = None"
  using line_is_start[of NL l "''....''" rest] assms by (simp add: match_at_def marker_def)

lemma match_at_marker_line: "match_at True (marker @ NL # rest) = lazy_group [] rest"
  by (simp add: match_at_def marker_def)

lemma search_last_line:
  assumes "NL \<notin> set l"
  shows "re_search True l = None"
proof -
  have m: "match_at True l = None"
    using last_line_no_start[OF assms, of "''....''"] by (simp add: match_at_def)
  show ?thesis
  proof (cases l)
    case Nil
    then show ?thesis using m by simp
  next
    case (Cons x xs)
    then have "x \<noteq> NL" using assms by auto
    then show ?thesis using Cons m assms search_False_last[of xs] by simp
  qed
qed

lemma search_found:
  assumes "mid \<noteq> []" "\<forall>l \<in> set (pre @ mid). NL \<notin> set l" "marker \<notin> set (pre @ mid)"
  shows "re_search True (join [NL] (pre @ marker # mid @ marker # post)) = Some (join [NL] mid)"
  using assms
proof (induction pre)
  case Nil
  obtain m ms where mid: "mid = m # ms" using Nil.prems by (cases mid) auto
  have j: "join [NL] ([] @ marker # mid @ marker # post) = marker @ NL # join [NL] (mid @ marker # post)"
    by (simp add: mid)
  have "match_at True (marker @ NL # join [NL] (mid @ marker # post)) = Some (join [NL] mid)"
    using lazy_found[of mid "[]" post] Nil.prems by (simp add: match_at_marker_line)
  then show ?case unfolding j by (simp add: marker_def)
next
  case (Cons p ps)
  have j: "join [NL] ((p # ps) @ marker # mid @ marker # post)
           = p @ NL # join [NL] (ps @ marker # mid @ marker # post)"
    by (cases ps) auto
  have "match_at True (p @ NL # join [NL] (ps @ marker # mid @ marker # post)) = None"
    using match_at_other_line[of p] Cons.prems by auto
  then show ?case unfolding j using Cons search_skip_line[of p] by auto
qed

lemma search_none:
  assumes "\<forall>l \<in> set ls. NL \<notin> set l" "count_list ls marker \<le> 1"
  shows "re_search True (join [NL] ls) = None"
  using assms
proof (induction ls)
  case Nil
  then show ?case by (simp add: match_at_def)
next
  case (Cons l ls)
  show ?case
  proof (cases ls)
    case Nil
    then show ?thesis using Cons.prems search_last_line[of l] by simp
  next
    case (Cons l' ls')
    have j: "join [NL] (l # ls) = l @ NL # join [NL] ls" by (simp add: Cons)
    have m: "match_at True (l @ NL # join [NL] ls) = None"
    proof (cases "l = marker")
      case True
      then have "marker \<notin> set ls" using Cons.prems(2) by (auto simp: count_list_0_iff split: if_splits)
      then show ?thesis using True lazy_none[of ls "[]"] Cons.prems(1) by (simp add: match_at_marker_line)
    next
      case False
      then show ?thesis using match_at_other_line[of l] Cons.prems(1) by simp
    qed
    have "count_list ls marker \<le> 1" using Cons.prems(2) by (simp split: if_splits)
    then have "re_search True (join [NL] ls) = None" using Cons.IH Cons.prems(1) by simp
    then show ?thesis unfolding j using search_skip_line[OF _ m] Cons.prems(1) by simp
  qed
qed


lemma lines_join: "join [NL] (lines s) = s"
  by (simp add: lines_def join_split)

lemma lines_free: "l \<in> set (lines s) \<Longrightarrow> NL \<notin> set l"
  by (simp add: lines_def split_free)

lemma lazy_none_first:
  assumes "\<forall>l \<in> set (l0 # ls). NL \<notin> set l" and "marker \<notin> set ls"
  shows "lazy_group acc (join [NL] (l0 # ls)) = None"
proof (cases ls)
  case Nil
  then show ?thesis using assms lazy_skip_line[of l0 acc "[]"] by (simp add: not_at_end_marker)
next
  case (Cons l' ls')
  have j: "join [NL] (l0 # ls) = l0 @ NL # join [NL] ls" by (simp add: Cons)
  have "\<not> at_end_marker (NL # join [NL] ls)"
    using at_end_marker_join[of l' ls'] assms Cons by auto
  then have "lazy_group acc (join [NL] (l0 # ls)) = lazy_group (NL # rev l0 @ acc) (join [NL] ls)"
    using assms(1) by (simp add: j lazy_skip_line)
  then show ?thesis using lazy_none[of ls "NL # rev l0 @ acc"] assms by simp
qed

lemma search_adjacent:
  assumes "\<forall>l \<in> set (pre @ post). NL \<notin> set l" and "marker \<notin> set (pre @ post)"
  shows "re_search True (join [NL] (pre @ marker # marker # post)) = None"
  using assms
proof (induction pre)
  case Nil
  have nl: "NL \<notin> set marker" by (simp add: marker_def)
  have j: "join [NL] ([] @ marker # marker # post) = marker @ NL # join [NL] (marker # post)"
    by simp
  have "lazy_group [] (join [NL] (marker # post)) = None"
    by (rule lazy_none_first) (use Nil.prems nl in auto)
  then have m: "match_at True (marker @ NL # join [NL] (marker # post)) = None"
    by (simp only: match_at_marker_line)
  have "count_list (marker # post) marker \<le> 1"
    using Nil.prems(2) by (simp add: count_list_0_iff)
  then have "re_search True (join [NL] (marker # post)) = None"
    using search_none[of "marker # post"] Nil.prems(1) nl by auto
  then show ?case unfolding j using search_skip_line[OF nl m] by simp
next
  case (Cons p ps)
  have j: "join [NL] ((p # ps) @ marker # marker # post)
           = p @ NL # join [NL] (ps @ marker # marker # post)"
    by (cases ps) auto
  have "match_at True (p @ NL # join [NL] (ps @ marker # marker # post)) = None"
    using match_at_other_line[of p] Cons.prems by auto
  then show ?case unfolding j using Cons search_skip_line[of p] by auto
qed

text \<open>
  Claim C2, as amended.  When the lines of a source text are some lines without the marker, the
  marker line, the lines of \<open>X\<close> (at least one line, which may be empty, and none of them the
  marker), the marker line again and further lines without the marker, extraction yields
  exactly \<open>X\<close>, its lines joined by newlines, without either marker line.  When the two
  marker lines follow each other directly, and when the marker line occurs at most once, the
  search finds no match, and the loop leaves with exit status 1 at that file without
  writing any image.
\<close>

theorem diagram_extraction:
  "(lines content = pre @ marker # mid @ marker # post \<and> marker \<notin> set (pre @ mid @ post) \<and> mid \<noteq> []
      \<longrightarrow> wave_content content = Some (join [NL] mid))
   \<and> (lines content = pre @ marker # marker # post \<and> marker \<notin> set (pre @ post)
      \<longrightarrow> wave_content content = None
          \<and> update_wave_files h svg_path ((name, content) # rest) fs = (Inl (SystemExit 1), fs))
   \<and> (count_list (lines content) marker \<le> 1
      \<longrightarrow> wave_content content = None
          \<and> update_wave_files h svg_path ((name, content) # rest) fs = (Inl (SystemExit 1), fs))"
proof (intro conjI impI)
  assume a: "lines content = pre @ marker # mid @ marker # post \<and> marker \<notin> set (pre @ mid @ post) \<and> mid \<noteq> []"
  have free: "\<forall>l \<in> set (pre @ mid). NL \<notin> set l"
  proof
    fix l assume "l \<in> set (pre @ mid)"
    then have "l \<in> set (lines content)" using a by auto
    then show "NL \<notin> set l" by (rule lines_free)
  qed
  have "re_search True (join [NL] (pre @ marker # mid @ marker # post)) = Some (join [NL] mid)"
    using search_found[of mid pre post] a free by auto
  moreover have "join [NL] (pre @ marker # mid @ marker # post) = content"
    using lines_join[of content] a by simp
  ultimately show "wave_content content = Some (join [NL] mid)"
    by (simp add: wave_content_def)
next
  assume a: "lines content = pre @ marker # marker # post \<and> marker \<notin> set (pre @ post)"
  have free: "\<forall>l \<in> set (pre @ post). NL \<notin> set l"
  proof
    fix l assume "l \<in> set (pre @ post)"
    then have "l \<in> set (lines content)" using a by auto
    then show "NL \<notin> set l" by (rule lines_free)
  qed
  have "re_search True (join [NL] (pre @ marker # marker # post)) = None"
    using search_adjacent[of pre post] a free by blast
  moreover have "join [NL] (pre @ marker # marker # post) = content"
    using lines_join[of content] a by simp
  ultimately show n: "wave_content content = None"
    by (simp add: wave_content_def)
  show "update_wave_files h svg_path ((name, content) # rest) fs = (Inl (SystemExit 1), fs)"
    by (simp add: n)
next
  assume c: "count_list (lines content) marker \<le> 1"
  have "re_search True (join [NL] (lines content)) = None"
    using search_none[of "lines content"] c lines_free by blast
  then show n: "wave_content content = None"
    by (simp add: wave_content_def lines_join)
  show "update_wave_files h svg_path ((name, content) # rest) fs = (Inl (SystemExit 1), fs)"
    by (simp add: n)
qed

lemma update_wave_files_prefix:
  assumes "\<forall>(n, c) \<in> set pre. \<exists>w s. wave_content c = Some w \<and> wavedrom_cli h w = Some s"
  shows "\<exists>fs1. update_wave_files h p (pre @ rest) fs = update_wave_files h p rest fs1
          \<and> (\<forall>q. q \<notin> (\<lambda>(n, c). p @ ''/'' @ with_suffix_svg n) ` set pre \<longrightarrow> fs1 q = fs q)
          \<and> (distinct (map (with_suffix_svg \<circ> fst) pre) \<longrightarrow>
               (\<forall>(n, c) \<in> set pre. \<exists>w s. wave_content c = Some w \<and> wavedrom_cli h w = Some s
                   \<and> fs1 (p @ ''/'' @ with_suffix_svg n) = Some (File s)))"
  using assms
proof (induction pre arbitrary: fs)
  case Nil
  show ?case by (rule exI[of _ fs]) simp
next
  case (Cons f pre)
  obtain n0 c0 where f: "f = (n0, c0)" by (cases f)
  obtain w0 s0 where w0: "wave_content c0 = Some w0" and s0: "wavedrom_cli h w0 = Some s0"
    using Cons.prems f by auto
  let ?fs0 = "fs(p @ ''/'' @ with_suffix_svg n0 \<mapsto> File s0)"
  have step: "update_wave_files h p ((f # pre) @ rest) fs = update_wave_files h p (pre @ rest) ?fs0"
    by (simp add: f w0 s0)
  have prems': "\<forall>(n, c) \<in> set pre. \<exists>w s. wave_content c = Some w \<and> wavedrom_cli h w = Some s"
    using Cons.prems by simp
  from Cons.IH[OF prems', of ?fs0]
  obtain fs1 where run: "update_wave_files h p (pre @ rest) ?fs0 = update_wave_files h p rest fs1"
    and out: "\<forall>q. q \<notin> (\<lambda>(n, c). p @ ''/'' @ with_suffix_svg n) ` set pre \<longrightarrow> fs1 q = ?fs0 q"
    and wr: "distinct (map (with_suffix_svg \<circ> fst) pre) \<longrightarrow>
               (\<forall>(n, c) \<in> set pre. \<exists>w s. wave_content c = Some w \<and> wavedrom_cli h w = Some s
                   \<and> fs1 (p @ ''/'' @ with_suffix_svg n) = Some (File s))"
    by blast
  have 1: "update_wave_files h p ((f # pre) @ rest) fs = update_wave_files h p rest fs1"
    using step run by simp
  have 2: "\<forall>q. q \<notin> (\<lambda>(n, c). p @ ''/'' @ with_suffix_svg n) ` set (f # pre) \<longrightarrow> fs1 q = fs q"
    using out f by auto
  have 3: "distinct (map (with_suffix_svg \<circ> fst) (f # pre)) \<longrightarrow>
               (\<forall>(n, c) \<in> set (f # pre). \<exists>w s. wave_content c = Some w \<and> wavedrom_cli h w = Some s
                   \<and> fs1 (p @ ''/'' @ with_suffix_svg n) = Some (File s))"
  proof
    assume d: "distinct (map (with_suffix_svg \<circ> fst) (f # pre))"
    then have "p @ ''/'' @ with_suffix_svg n0 \<notin> (\<lambda>(n, c). p @ ''/'' @ with_suffix_svg n) ` set pre"
      using f by (auto simp: image_iff)
    then have "fs1 (p @ ''/'' @ with_suffix_svg n0) = Some (File s0)"
      using out by simp
    then show "\<forall>(n, c) \<in> set (f # pre). \<exists>w s. wave_content c = Some w \<and> wavedrom_cli h w = Some s
                   \<and> fs1 (p @ ''/'' @ with_suffix_svg n) = Some (File s)"
      using wr d f w0 s0 by auto
  qed
  from 1 2 3 show ?case by blast
qed

text \<open>
  Claim C10.  Regeneration processes the listing in order and writes each image before it
  reads the next file.  When the files before some file render and that file fails (no
  marker pair, or the renderer exits non-zero), the run ends with exit status 1, the image of
  every earlier file is written, and the image paths of the failing file and of the files
  after it are as they were before the run.
\<close>

theorem regeneration_not_atomic:
  assumes "node_env h = None" and "edn_files h = pre @ (n, c) # post"
      and "\<forall>(n', c') \<in> set pre. \<exists>w s. wave_content c' = Some w \<and> wavedrom_cli h w = Some s"
      and "wave_content c = None \<or> (\<exists>w. wave_content c = Some w \<and> wavedrom_cli h w = None)"
      and "distinct (map (with_suffix_svg \<circ> fst) (edn_files h))"
  shows "\<exists>fs'. update_wave ROOT_PATH h fs = (Inl (SystemExit 1), fs')
       \<and> (\<forall>(n', c') \<in> set pre. \<exists>w s. wave_content c' = Some w \<and> wavedrom_cli h w = Some s
             \<and> fs' (ROOT_PATH @ ''/assets/images/wavedrom/svg/'' @ with_suffix_svg n') = Some (File s))
       \<and> (\<forall>(n', c') \<in> set ((n, c) # post).
             fs' (ROOT_PATH @ ''/assets/images/wavedrom/svg/'' @ with_suffix_svg n')
               = fs (ROOT_PATH @ ''/assets/images/wavedrom/svg/'' @ with_suffix_svg n'))"
proof -
  let ?p = "ROOT_PATH @ ''/assets/images/wavedrom/svg''"
  have path: "\<And>x. ROOT_PATH @ ''/assets/images/wavedrom/svg/'' @ x = ?p @ ''/'' @ x" by simp
  have dpre: "distinct (map (with_suffix_svg \<circ> fst) pre)"
    using assms(5) by (simp add: assms(2))
  obtain fs1 where run: "update_wave_files h ?p (pre @ (n, c) # post) fs = update_wave_files h ?p ((n, c) # post) fs1"
    and out: "\<forall>q. q \<notin> (\<lambda>(n, c). ?p @ ''/'' @ with_suffix_svg n) ` set pre \<longrightarrow> fs1 q = fs q"
    and wr: "\<forall>(n, c) \<in> set pre. \<exists>w s. wave_content c = Some w \<and> wavedrom_cli h w = Some s
                   \<and> fs1 (?p @ ''/'' @ with_suffix_svg n) = Some (File s)"
    using update_wave_files_prefix[OF assms(3), of ?p "(n, c) # post" fs] dpre by blast
  have fail: "update_wave_files h ?p ((n, c) # post) fs1 = (Inl (SystemExit 1), fs1)"
    using assms(4) by auto
  have 1: "update_wave ROOT_PATH h fs = (Inl (SystemExit 1), fs1)"
    unfolding update_wave_def assms(2) run fail using assms(1) by simp
  have 3: "\<forall>(n', c') \<in> set ((n, c) # post). fs1 (?p @ ''/'' @ with_suffix_svg n') = fs (?p @ ''/'' @ with_suffix_svg n')"
  proof (clarify)
    fix n' c' assume m: "(n', c') \<in> set ((n, c) # post)"
    have "with_suffix_svg n' \<in> set (map (with_suffix_svg \<circ> fst) ((n, c) # post))"
      using m by force
    moreover have "set (map (with_suffix_svg \<circ> fst) pre)
                    \<inter> set (map (with_suffix_svg \<circ> fst) ((n, c) # post)) = {}"
      using assms(5) unfolding assms(2) by (simp only: map_append distinct_append)
    ultimately have "with_suffix_svg n' \<notin> set (map (with_suffix_svg \<circ> fst) pre)"
      by blast
    then have "?p @ ''/'' @ with_suffix_svg n' \<notin> (\<lambda>(n, c). ?p @ ''/'' @ with_suffix_svg n) ` set pre"
      by (auto simp: image_iff)
    then show "fs1 (?p @ ''/'' @ with_suffix_svg n') = fs (?p @ ''/'' @ with_suffix_svg n')"
      using out by blast
  qed
  show ?thesis unfolding path using 1 wr 3 by blast
qed


lemma wave_content_sample [simp]: "NL \<notin> set x \<Longrightarrow> x \<noteq> marker \<Longrightarrow> wave_content (sample_edn x) = Some x"
proof -
  assume a: "NL \<notin> set x" "x \<noteq> marker"
  have "re_search True (join [NL] ([] @ marker # [x] @ marker # [[]])) = Some (join [NL] [x])"
    by (rule search_found) (use a in auto)
  then show ?thesis by (simp add: wave_content_def sample_edn_def marker_def)
qed

lemma wave_content_no_marker: "wave_content ''no marker'' = None"
  by (simp add: wave_content_def match_at_def)

theorem diagram_extraction_witness:
  "wave_content (''....'' @ [NL] @ ''WAVE{...}'' @ [NL] @ ''....'') = Some ''WAVE{...}''
   \<and> wave_content (''title'' @ [NL] @ ''....'' @ [NL] @ ''....'' @ [NL] @ ''end'') = None
   \<and> wave_content (''....'' @ [NL] @ ''WAVE{...}'') = None
   \<and> update_wave_files sample_host ''/r/svg'' [(''a.edn'', ''....'' @ [NL] @ ''WAVE{...}'')] Map.empty
       = (Inl (SystemExit 1), Map.empty)"
proof -
  have h1: "lines (''....'' @ [NL] @ ''WAVE{...}'' @ [NL] @ ''....'') = [] @ marker # [''WAVE{...}''] @ marker # []
            \<and> marker \<notin> set ([] @ [''WAVE{...}''] @ []) \<and> [''WAVE{...}''] \<noteq> []"
    by (simp add: lines_def marker_def)
  have h2: "lines (''title'' @ [NL] @ ''....'' @ [NL] @ ''....'' @ [NL] @ ''end'') = [''title''] @ marker # marker # [''end'']
            \<and> marker \<notin> set ([''title''] @ [''end''])"
    by (simp add: lines_def marker_def)
  have h3: "count_list (lines (''....'' @ [NL] @ ''WAVE{...}'')) marker \<le> 1"
    by (simp add: lines_def marker_def)
  show ?thesis
    using diagram_extraction[of "''....'' @ [NL] @ ''WAVE{...}'' @ [NL] @ ''....''" "[]" "[''WAVE{...}'']" "[]"] h1
          diagram_extraction[of "''title'' @ [NL] @ ''....'' @ [NL] @ ''....'' @ [NL] @ ''end''" "[''title'']" "[]" "[''end'']"] h2
          diagram_extraction[of "''....'' @ [NL] @ ''WAVE{...}''" "[]" "[]" "[]" sample_host "''/r/svg''" "''a.edn''" "[]" Map.empty] h3
    by simp
qed

text \<open>
  The claim as stated fails.  In the text of two marker lines and nothing else the marker
  line appears exactly twice, with the empty content between the two, and extraction does
  not return it: the search finds no match and the run ends with exit status 1, no image
  written.  With one empty line between the marker lines the empty content is returned.
\<close>

theorem adjacent_markers_not_extracted:
  "count_list (lines (''....'' @ [NL] @ ''....'')) marker = 2
   \<and> wave_content (''....'' @ [NL] @ ''....'') = None
   \<and> update_wave_files sample_host ''/r/svg'' [(''a.edn'', ''....'' @ [NL] @ ''....'')] Map.empty
       = (Inl (SystemExit 1), Map.empty)
   \<and> wave_content (''....'' @ [NL] @ [NL] @ ''....'') = Some []"
  by (simp add: lines_def marker_def wave_content_def match_at_def at_end_marker_def)

theorem regeneration_not_atomic_witness:
  "\<exists>fs'. update_wave ''/r'' sample_wave_host Map.empty = (Inl (SystemExit 1), fs')
       \<and> fs' ''/r/assets/images/wavedrom/svg/a.svg'' = Some (File ''A'')
       \<and> fs' ''/r/assets/images/wavedrom/svg/b.svg'' = None
       \<and> fs' ''/r/assets/images/wavedrom/svg/c.svg'' = None"
proof -
  have 1: "node_env sample_wave_host = None"
    by (simp add: sample_wave_host_def sample_host_def)
  have 2: "edn_files sample_wave_host = [(''a.edn'', sample_edn ''A'')] @ (''b.edn'', ''no marker'') # [(''c.edn'', sample_edn ''C'')]"
    by (simp add: sample_wave_host_def)
  have 3: "\<forall>(n', c') \<in> set [(''a.edn'', sample_edn ''A'')]. \<exists>w s. wave_content c' = Some w \<and> wavedrom_cli sample_wave_host w = Some s"
    by (simp add: marker_def sample_wave_host_def sample_host_def)
  have 4: "wave_content ''no marker'' = None \<or> (\<exists>w. wave_content ''no marker'' = Some w \<and> wavedrom_cli sample_wave_host w = None)"
    by (simp add: wave_content_no_marker)
  have 5: "distinct (map (with_suffix_svg \<circ> fst) (edn_files sample_wave_host))"
    by (simp add: sample_wave_host_def with_suffix_svg_def)
  have w: "wavedrom_cli sample_wave_host = (\<lambda>w. Some w)"
    by (simp add: sample_wave_host_def sample_host_def)
  show ?thesis
    using regeneration_not_atomic[OF 1 2 3 4 5, of "''/r''" Map.empty]
    by (simp add: with_suffix_svg_def marker_def w)
qed

section \<open>Package query\<close>

lemma package_query_not_started:
  "dpkg h package = NotStarted e \<Longrightarrow> check_package_installed h package = Inl e"
  by (simp add: check_package_installed_def)

text \<open>
  Claim C8, as amended.  Whenever \<open>dpkg -s\<close> could be started, the query is decided by
  its exit status: a non-zero exit (package absent, or an error of the package manager)
  yields \<open>False\<close>, and a zero exit yields whether the decoded output contains the installed
  status line.  In that case the query raises only if the output cannot be decoded.
\<close>

theorem package_query_result:
  assumes "dpkg h package = Exited status out"
  shows "(status \<noteq> 0 \<longrightarrow> check_package_installed h package = Inr False)
       \<and> (status = 0 \<longrightarrow> (\<forall>t. out = Some t \<longrightarrow>
             check_package_installed h package = Inr (contains ''Status: install ok installed'' t)))
       \<and> ((\<exists>e. check_package_installed h package = Inl e) \<longleftrightarrow> status = 0 \<and> out = None)"
  using assms by (auto simp: check_package_installed_def split: option.splits)

theorem package_query_result_witness:
  "dpkg (sample_host\<lparr>dpkg := \<lambda>p. Exited 1 None\<rparr>) ''bison'' = Exited 1 None
   \<and> check_package_installed (sample_host\<lparr>dpkg := \<lambda>p. Exited 1 None\<rparr>) ''bison'' = Inr False"
  using package_query_result[of "sample_host\<lparr>dpkg := \<lambda>p. Exited 1 None\<rparr>" "''bison''" 1 None]
  by simp

text \<open>
  The claim as stated fails: when \<open>dpkg\<close> cannot be started, \<open>subprocess.run\<close> raises
  \<open>FileNotFoundError\<close>, which is not a \<open>CalledProcessError\<close> and leaves the query.
\<close>

theorem package_query_raises:
  "check_package_installed (sample_host\<lparr>dpkg := \<lambda>p. NotStarted (FileNotFoundError ''dpkg'')\<rparr>) ''bison''
     = Inl (FileNotFoundError ''dpkg'')"
  by (simp add: check_package_installed_def)

section \<open>main\<close>

lemma init_tags:
  "target a = ''tags'' \<Longrightarrow> DocumentBuilder_init (main_config root a) vb now hp = Inl (KeyError ''tags'')"
  by (simp add: DocumentBuilder_init_def init_docs_targets)

text \<open>
  Claim C5 at the tag-index selector.  The command line offers \<open>tags\<close>, and \<open>docs\<close> has
  no such key (its tag-index entry is \<open>json\<close>): the constructor raises \<open>KeyError\<close> before
  anything is provisioned or built, and nothing catches it.
\<close>

theorem tags_selector_raises:
  "main ''/r'' (sample_args\<lparr>target := ''tags''\<rparr>) sample_host sample_now sample_world
     = (Inl (KeyError ''tags''), sample_world)"
  by (simp add: main_def init_tags sample_args_def)

section \<open>Workspace set-up\<close>

lemma follow_links_entry: "fs p = None \<Longrightarrow> follow_links n fs p = Some p"
  by (cases n) simp_all

lemma follow_links_dir: "fs p = Some Dir \<Longrightarrow> follow_links n fs p = Some p"
  by (cases n) simp_all

lemma stat_entry: "stat fs p \<noteq> None \<Longrightarrow> fs p \<noteq> None"
  by (cases "fs p") (auto simp: stat_def follow_links_entry)

lemma stat_dir: "fs p = Some Dir \<Longrightarrow> stat fs p = Some Dir"
  by (simp add: stat_def follow_links_dir)

lemma follow_links_mono:
  assumes "fs \<subseteq>\<^sub>m fs'" and "follow_links n fs p = Some q" and "fs q = Some x"
  shows "follow_links n fs' p = Some q"
  using assms(2)
proof (induction n arbitrary: p)
  case 0
  then have q: "q = p" by (auto split: option.splits node.splits)
  then have "fs' p = Some x" using assms(1,3) by (auto simp: map_le_def dom_def)
  moreover have "\<forall>t. x \<noteq> Symlink t" using 0 assms(3) q by (auto split: option.splits node.splits)
  ultimately show ?case using q by (cases x) auto
next
  case (Suc n)
  show ?case
  proof (cases "\<exists>t. fs p = Some (Symlink t)")
    case True
    then obtain t where t: "fs p = Some (Symlink t)" by blast
    then have "fs' p = Some (Symlink t)" using assms(1) by (auto simp: map_le_def dom_def)
    moreover have "follow_links n fs t = Some q" using Suc.prems t by simp
    ultimately show ?thesis using Suc.IH by simp
  next
    case False
    then have q: "q = p" using Suc.prems by (auto split: option.splits node.splits)
    then have "fs' p = Some x" using assms(1,3) by (auto simp: map_le_def dom_def)
    moreover have "\<forall>t. x \<noteq> Symlink t" using False assms(3) q by auto
    ultimately show ?thesis using q by (cases x) auto
  qed
qed

lemma stat_mono:
  assumes "fs \<subseteq>\<^sub>m fs'" and "stat fs p = Some x"
  shows "stat fs' p = Some x"
proof -
  from assms(2) obtain q where q: "follow_links MAXSYMLINKS fs p = Some q" and x: "fs q = Some x"
    by (auto simp: stat_def split: option.splits)
  have "follow_links MAXSYMLINKS fs' p = Some q" by (rule follow_links_mono[OF assms(1) q x])
  moreover have "fs' q = Some x" using assms(1) x by (auto simp: map_le_def dom_def)
  ultimately show ?thesis by (simp add: stat_def)
qed

lemma path_exists_mono: "fs \<subseteq>\<^sub>m fs' \<Longrightarrow> path_exists fs p \<Longrightarrow> path_exists fs' p"
  using stat_mono[of fs fs' p] by (auto simp: path_exists_def)

lemma path_exists_entry: "path_exists fs p \<Longrightarrow> fs p \<noteq> None"
  unfolding path_exists_def by (rule stat_entry)

lemma mkdir_success:
  assumes "mkdir fs head name = Inr fs1"
  shows "fs \<subseteq>\<^sub>m fs1" and "fs1 name = Some Dir"
  using assms
  by (auto simp: mkdir_def map_le_def split: if_splits option.splits node.splits)

lemma mkdir_exist_ok_success:
  assumes "mkdir_exist_ok fs head name = Inr fs1"
  shows "fs \<subseteq>\<^sub>m fs1" and "isdir fs1 name"
proof -
  have "fs \<subseteq>\<^sub>m fs1 \<and> isdir fs1 name"
  proof (cases "mkdir fs head name")
    case (Inl e)
    then show ?thesis using assms by (auto simp: mkdir_exist_ok_def split: if_splits)
  next
    case (Inr fs2)
    then have "fs2 = fs1" using assms by (simp add: mkdir_exist_ok_def)
    then show ?thesis using mkdir_success[OF Inr] by (simp add: isdir_def stat_dir)
  qed
  then show "fs \<subseteq>\<^sub>m fs1" and "isdir fs1 name" by simp_all
qed

lemma makedirs_from_success:
  assumes "makedirs_from fs name up = Inr fs1"
  shows "fs \<subseteq>\<^sub>m fs1 \<and> isdir fs1 name"
  using assms
proof (induction up arbitrary: name fs1)
  case Nil
  then show ?case using mkdir_exist_ok_success[of fs None name fs1] by simp
next
  case (Cons head up)
  show ?case
  proof (cases "path_exists fs head")
    case True
    then show ?thesis using Cons.prems mkdir_exist_ok_success[of fs "Some head" name fs1] by simp
  next
    case False
    show ?thesis
    proof (cases "makedirs_from fs head up")
      case (Inl e)
      then show ?thesis
        using Cons.prems False mkdir_exist_ok_success[of fs "Some head" name fs1]
        by (simp split: if_splits)
    next
      case (Inr fs0)
      then have 0: "fs \<subseteq>\<^sub>m fs0" using Cons.IH by blast
      have "mkdir_exist_ok fs0 (Some head) name = Inr fs1" using Cons.prems False Inr by simp
      from mkdir_exist_ok_success[OF this] 0 show ?thesis by (blast intro: map_le_trans)
    qed
  qed
qed

lemma makedirs_success:
  assumes "makedirs fs p = Inr fs1"
  shows "fs \<subseteq>\<^sub>m fs1" and "isdir fs1 p"
  using makedirs_from_success[of fs p "rev (ancestors p)" fs1] assms by (simp_all add: makedirs_def)

lemma symlink_success:
  assumes "symlink fs t l = Inr fs1"
  shows "fs \<subseteq>\<^sub>m fs1"
  using assms by (auto simp: symlink_def map_le_def split: if_splits)

lemma create_workdir_success:
  assumes "create_workdir root fs p = (Inr u, fs')"
  shows "fs \<subseteq>\<^sub>m fs'" and "path_exists fs' p"
proof -
  from assms obtain fs1 fs2 fs3 where
        m: "makedirs fs p = Inr fs1"
    and s1: "symlink fs1 (root @ ''/src'') (p @ ''/src'') = Inr fs2"
    and s2: "symlink fs2 (root @ ''/docs-resources'') (p @ ''/docs-resources'') = Inr fs3"
    and s3: "symlink fs3 (root @ ''/assets'') (p @ ''/assets'') = Inr fs'"
    by (auto simp: create_workdir_def split: sum.splits)
  have l: "fs1 \<subseteq>\<^sub>m fs'"
    using symlink_success[OF s1] symlink_success[OF s2] symlink_success[OF s3]
    by (blast intro: map_le_trans)
  show "fs \<subseteq>\<^sub>m fs'" using makedirs_success(1)[OF m] l by (rule map_le_trans)
  have "stat fs1 p = Some Dir" using makedirs_success(2)[OF m] by (simp add: isdir_def)
  then have "stat fs' p = Some Dir" by (rule stat_mono[OF l])
  then show "path_exists fs' p" by (simp add: path_exists_def)
qed

lemma workdir_loop_Cons:
  "workdir_loop root bdir (d # ds) wd fs =
     (case (if \<not> path_exists fs (workdir_path bdir d)
            then create_workdir root fs (workdir_path bdir d) else (Inr (), fs)) of
        (Inl e, fs1) \<Rightarrow> (Inl e, fs1)
      | (Inr u, fs1) \<Rightarrow>
          (case build_targs d of
             Inl e \<Rightarrow> (Inl e, fs1)
           | Inr t \<Rightarrow> workdir_loop root bdir ds (wd(t \<mapsto> workdir_path bdir d)) fs1))"
  by (simp add: Let_def)

lemma work_dir_after_Cons:
  "build_targs d = Inr t \<Longrightarrow>
     work_dir_after bdir (d # ds) wd = work_dir_after bdir ds (wd(t \<mapsto> workdir_path bdir d))"
  by simp

lemma workdir_loop_success:
  assumes "workdir_loop root bdir ds wd fs = (Inr wd1, fs1)"
  shows "fs \<subseteq>\<^sub>m fs1
       \<and> (\<forall>d \<in> set ds. path_exists fs1 (workdir_path bdir d))
       \<and> wd1 = work_dir_after bdir ds wd"
  using assms
proof (induction ds arbitrary: wd fs)
  case Nil
  then show ?case by simp
next
  case (Cons d ds)
  define p where "p = workdir_path bdir d"
  note eq = workdir_loop_Cons[of root bdir d ds wd fs, folded p_def]
  obtain r0 fs0 where c: "(if \<not> path_exists fs p then create_workdir root fs p else (Inr (), fs)) = (r0, fs0)"
    by (cases "if \<not> path_exists fs p then create_workdir root fs p else (Inr (), fs)") auto
  from Cons.prems have r0: "r0 = Inr ()"
    unfolding eq c by (cases r0) auto
  from Cons.prems obtain t where t: "build_targs d = Inr t"
    and l: "workdir_loop root bdir ds (wd(t \<mapsto> p)) fs0 = (Inr wd1, fs1)"
    unfolding eq c r0 by (cases "build_targs d") auto
  have g0: "fs \<subseteq>\<^sub>m fs0" and e0: "path_exists fs0 p"
    using c[unfolded r0] create_workdir_success[of root fs p "()" fs0]
    by (auto split: if_splits)
  from Cons.IH[OF l] have
        g1: "fs0 \<subseteq>\<^sub>m fs1"
    and e1: "\<forall>d \<in> set ds. path_exists fs1 (workdir_path bdir d)"
    and w1: "wd1 = work_dir_after bdir ds (wd(t \<mapsto> p))"
    by blast+
  have 1: "fs \<subseteq>\<^sub>m fs1" using g0 g1 by (rule map_le_trans)
  have 2: "path_exists fs1 (workdir_path bdir d)"
    using path_exists_mono[OF g1 e0] unfolding p_def .
  have 3: "wd1 = work_dir_after bdir (d # ds) wd"
    unfolding work_dir_after_Cons[OF t] w1 p_def ..
  from 1 2 3 e1 show ?case by simp
qed

lemma workdir_loop_existing:
  assumes "\<forall>d \<in> set ds. path_exists fs (workdir_path bdir d)"
      and "\<forall>d \<in> set ds. \<exists>t. build_targs d = Inr t"
  shows "workdir_loop root bdir ds wd fs = (Inr (work_dir_after bdir ds wd), fs)"
  using assms by (induction ds arbitrary: wd) auto

lemma workdir_loop_targs:
  assumes "workdir_loop root bdir ds wd fs = (Inr wd1, fs1)"
  shows "\<forall>d \<in> set ds. \<exists>t. build_targs d = Inr t"
  using assms
  by (induction ds arbitrary: wd fs) (auto simp: Let_def split: prod.splits sum.splits if_splits)

lemma work_dir_after_add: "work_dir_after bdir ds wd = wd ++ work_dir_after bdir ds Map.empty"
proof (induction ds arbitrary: wd)
  case Nil
  then show ?case by simp
next
  case (Cons d ds)
  show ?case
  proof (cases "build_targs d")
    case (Inl e)
    then show ?thesis by simp
  next
    case (Inr t)
    define p where "p = workdir_path bdir d"
    define M where "M = work_dir_after bdir ds Map.empty"
    note a = work_dir_after_Cons[OF Inr, of bdir ds wd, folded p_def]
    note b = work_dir_after_Cons[OF Inr, of bdir ds Map.empty, folded p_def]
    have c: "work_dir_after bdir ds (wd(t \<mapsto> p)) = wd(t \<mapsto> p) ++ M"
      unfolding M_def by (rule Cons.IH)
    have d: "work_dir_after bdir ds [t \<mapsto> p] = [t \<mapsto> p] ++ M"
      unfolding M_def by (rule Cons.IH)
    have e: "wd(t \<mapsto> p) ++ M = wd ++ ([t \<mapsto> p] ++ M)"
      by (subst map_add_assoc) simp
    show ?thesis unfolding a b c d e ..
  qed
qed

lemma map_add_same: "(m :: 'a \<rightharpoonup> 'b) ++ m = m"
  by (rule ext) (simp add: map_add_def split: option.splits)

lemma work_dir_after_idem: "work_dir_after bdir ds (work_dir_after bdir ds wd) = work_dir_after bdir ds wd"
proof -
  define M where "M = work_dir_after bdir ds Map.empty"
  have 1: "work_dir_after bdir ds wd = wd ++ M"
    unfolding M_def by (rule work_dir_after_add)
  have 2: "work_dir_after bdir ds (wd ++ M) = (wd ++ M) ++ M"
    unfolding M_def by (rule work_dir_after_add)
  have 3: "(wd ++ M) ++ M = wd ++ M"
    by (simp only: map_add_assoc[symmetric] map_add_same)
  show ?thesis unfolding 1 2 3 ..
qed

text \<open>
  Claim C6.  When \<open>_workdir_setup\<close> has returned, a second call on the state it left
  returns as well, with the same \<open>work_dir\<close> dict and the same filesystem: every workspace
  exists, so none is created or linked again, and no \<open>os.symlink\<close> can meet an existing
  link.
\<close>

theorem workdir_setup_idempotent:
  assumes "workdir_setup root b fs = (Inr b1, fs1)"
  shows "workdir_setup root b1 fs1 = (Inr b1, fs1)"
proof -
  obtain wd1 where l: "workdir_loop root (self_build_dir b) (self_docs b) (self_work_dir b) fs = (Inr wd1, fs1)"
    and b1: "b1 = b\<lparr>self_work_dir := wd1\<rparr>"
    using assms by (auto simp: workdir_setup_def split: prod.splits sum.splits)
  from workdir_loop_success[OF l] have
        e: "\<forall>d \<in> set (self_docs b). path_exists fs1 (workdir_path (self_build_dir b) d)"
    and w: "wd1 = work_dir_after (self_build_dir b) (self_docs b) (self_work_dir b)"
    by auto
  have "workdir_loop root (self_build_dir b) (self_docs b) wd1 fs1
          = (Inr (work_dir_after (self_build_dir b) (self_docs b) wd1), fs1)"
    by (rule workdir_loop_existing[OF e workdir_loop_targs[OF l]])
  then have "workdir_loop root (self_build_dir b) (self_docs b) wd1 fs1 = (Inr wd1, fs1)"
    by (simp add: w work_dir_after_idem)
  then show ?thesis by (simp add: workdir_setup_def b1)
qed


lemma sample_workdir_setup:
  "case DocumentBuilder_init (main_config ''/r'' sample_args) (verbose sample_args) sample_now (heap sample_world) of
     Inl e \<Rightarrow> False
   | Inr (b, hp) \<Rightarrow>
       (case workdir_setup ''/r'' b (filesystem sample_world) of
          (Inl e, fs1) \<Rightarrow> False
        | (Inr b1, fs1) \<Rightarrow>
            fs1 ''/r/build/openrisc-manual.pdf.workdir/src'' = Some (Symlink ''/r/src'')
            \<and> self_work_dir b1 ''pdf'' = Some ''/r/build/openrisc-manual.pdf.workdir'')"
  by code_simp

theorem workdir_setup_idempotent_witness:
  "\<exists>b hp b1 fs1.
      DocumentBuilder_init (main_config ''/r'' sample_args) (verbose sample_args) sample_now (heap sample_world) = Inr (b, hp)
    \<and> workdir_setup ''/r'' b (filesystem sample_world) = (Inr b1, fs1)
    \<and> workdir_setup ''/r'' b1 fs1 = (Inr b1, fs1)
    \<and> fs1 ''/r/build/openrisc-manual.pdf.workdir/src'' = Some (Symlink ''/r/src'')"
proof -
  obtain b hp where
        i: "DocumentBuilder_init (main_config ''/r'' sample_args) (verbose sample_args) sample_now (heap sample_world) = Inr (b, hp)"
    and k: "case workdir_setup ''/r'' b (filesystem sample_world) of
          (Inl e, fs1) \<Rightarrow> False
        | (Inr b1, fs1) \<Rightarrow>
            fs1 ''/r/build/openrisc-manual.pdf.workdir/src'' = Some (Symlink ''/r/src'')
            \<and> self_work_dir b1 ''pdf'' = Some ''/r/build/openrisc-manual.pdf.workdir''"
    using sample_workdir_setup
    by (cases "DocumentBuilder_init (main_config ''/r'' sample_args) (verbose sample_args) sample_now (heap sample_world)")
       auto
  obtain r fs1 where s0: "workdir_setup ''/r'' b (filesystem sample_world) = (r, fs1)"
    by (cases "workdir_setup ''/r'' b (filesystem sample_world)") auto
  obtain b1 where r: "r = Inr b1" using k s0 by (cases r) auto
  have s: "workdir_setup ''/r'' b (filesystem sample_world) = (Inr b1, fs1)" using s0 r by simp
  have l: "fs1 ''/r/build/openrisc-manual.pdf.workdir/src'' = Some (Symlink ''/r/src'')"
    using k s by simp
  from workdir_setup_idempotent[OF s] i s l show ?thesis by blast
qed

section \<open>The build sequence of main\<close>

lemma and_then_cases:
  assumes "and_then f g s = (r, s')"
  shows "(\<exists>e. f s = (Inl e, s') \<and> r = Inl e) \<or> (\<exists>v s1. f s = (Inr v, s1) \<and> g v s1 = (r, s'))"
  using assms by (auto simp: and_then_def split: prod.splits sum.splits)

lemma ran_and_then:
  assumes "and_then f g w = (r, w')"
      and "\<And>rf w1. f w = (rf, w1) \<Longrightarrow> built_in_order ts1 rf w w1"
      and "\<And>v w1. g v w1 = (r, w') \<Longrightarrow> built_in_order ts2 r w1 w'"
  shows "built_in_order (ts1 @ ts2) r w w'"
  using and_then_cases[OF assms(1)]
proof (elim disjE exE conjE)
  fix e assume f: "f w = (Inl e, w')" and r: "r = Inl e"
  from assms(2)[OF f] show ?thesis
    unfolding built_in_order_def r by (auto intro: prefix_order.trans)
next
  fix v w1 assume f: "f w = (Inr v, w1)" and g: "g v w1 = (r, w')"
  from assms(2)[OF f] obtain rs1 where 1: "runs w1 = runs w @ rs1" "map fst rs1 = ts1"
    unfolding built_in_order_def by auto
  from assms(3)[OF g] obtain rs2 where 2: "runs w' = runs w1 @ rs2" "prefix (map fst rs2) ts2"
      "(\<exists>v. r = Inr v) \<longrightarrow> map fst rs2 = ts2"
    unfolding built_in_order_def by auto
  show ?thesis unfolding built_in_order_def
    by (rule exI[of _ "rs1 @ rs2"]) (use 1 2 in auto)
qed

lemma chdir_runs: "chdir p w = (r, w1) \<Longrightarrow> runs w1 = runs w \<and> filesystem w1 = filesystem w \<and> heap w1 = heap w"
  by (auto simp: chdir_def split: option.splits node.splits)

lemma build_for_all_ran:
  assumes "build_for_all root b h t w = (r, w')"
  shows "built_in_order [t] r w w'"
proof (cases "cmd_str root b (heap w) t")
  case (Inl e)
  then show ?thesis using assms by (auto simp: build_for_all_def built_in_order_def)
next
  case (Inr cmd)
  show ?thesis
  proof (cases "self_work_dir b t")
    case None
    then show ?thesis using assms Inr by (auto simp: build_for_all_def built_in_order_def)
  next
    case (Some dir)
    obtain rc w1 where c: "chdir dir w = (rc, w1)" by (cases "chdir dir w") auto
    note cr = chdir_runs[OF c]
    show ?thesis
    proof (cases rc)
      case (Inl e)
      then show ?thesis using assms Inr Some c cr by (auto simp: build_for_all_def built_in_order_def)
    next
      case (Inr u)
      then show ?thesis using assms \<open>cmd_str root b (heap w) t = Inr cmd\<close> Some c cr
        by (auto simp: build_for_all_def built_in_order_def Let_def split: sum.splits if_splits)
    qed
  qed
qed

lemma build_all_ran:
  assumes "build_all root b h w = (r, w')"
  shows "built_in_order [''pdf'', ''epub'', ''html'', ''json''] r w w'"
proof -
  define g3 where "g3 = (\<lambda>u::unit. build_for_all root b h ''json'')"
  define g2 where "g2 = (\<lambda>u::unit. and_then (build_for_all root b h ''html'') g3)"
  define g1 where "g1 = (\<lambda>u::unit. and_then (build_for_all root b h ''epub'') g2)"
  have r3: "\<And>v w1 r w'. g3 v w1 = (r, w') \<Longrightarrow> built_in_order [''json''] r w1 w'"
    unfolding g3_def by (rule build_for_all_ran)
  have r2: "\<And>v w1 r w'. g2 v w1 = (r, w') \<Longrightarrow> built_in_order ([''html''] @ [''json'']) r w1 w'"
    unfolding g2_def by (rule ran_and_then[where ?ts1.0="[''html'']"], assumption, rule build_for_all_ran, assumption, rule r3)
  have r1: "\<And>v w1 r w'. g1 v w1 = (r, w') \<Longrightarrow> built_in_order ([''epub''] @ [''html''] @ [''json'']) r w1 w'"
    unfolding g1_def by (rule ran_and_then[where ?ts1.0="[''epub'']"], assumption, rule build_for_all_ran, assumption, rule r2)
  have eq: "and_then (build_for_all root b h ''pdf'') g1 w = (r, w')"
    using assms unfolding build_all_def g1_def g2_def g3_def .
  have "built_in_order ([''pdf''] @ [''epub''] @ [''html''] @ [''json'']) r w w'"
    by (rule ran_and_then[where ?ts1.0="[''pdf'']", OF eq], rule build_for_all_ran, assumption, rule r1)
  then show ?thesis by simp
qed


lemma built_in_order_base:
  "built_in_order ts r w1 w' \<Longrightarrow> runs w1 = runs w \<Longrightarrow> built_in_order ts r w w'"
  by (simp add: built_in_order_def)

lemma built_in_order_raised:
  "runs w' = runs w \<Longrightarrow> built_in_order ts (Inl e) w w'"
  by (simp add: built_in_order_def)

lemma clean_work_dir_ran:
  "clean_work_dir b w = (r, w') \<Longrightarrow> built_in_order [] r w w'"
  by (auto simp: clean_work_dir_def built_in_order_def split: prod.splits)

lemma init_fields:
  assumes "DocumentBuilder_init cfg vb now hp = Inr (b, hp')"
  shows "self_build_target b = build_target cfg" "self_build_dir b = build_dir cfg"
        "init_docs cfg = Inr (self_docs b)" "self_work_dir b = Map.empty"
        "self_build_cmd b = build_cmd cfg" "self_verbose b = vb" "self_options b = OPTIONS_ref"
  using assms
  by (auto simp: DocumentBuilder_init_def Let_def split: sum.splits)

lemma setup_ruby_Inr:
  assumes "setup_ruby_environment root b h req = Inr (ok, b1)"
  shows "\<exists>bin lib rq. b1 = b\<lparr>self_ruby_bin := bin, self_ruby_lib := lib, self_ruby_require := Some rq\<rparr>"
  using assms by (auto simp: setup_ruby_environment_def Let_def split: option.splits)

lemma prepare_env_Inr:
  assumes "prepare_env root b h fs = (Inr (ok, b1), fs1)"
  shows "ok"
    and "\<exists>bin lib rq. b1 = b\<lparr>self_ruby_bin := bin, self_ruby_lib := lib, self_ruby_require := Some rq,
             self_work_dir := work_dir_after (self_build_dir b) (self_docs b) (self_work_dir b)\<rparr>"
    and "\<forall>d \<in> set (self_docs b). fs1 (workdir_path (self_build_dir b) d) \<noteq> None"
proof -
  from assms obtain ok0 b0 fs0 where
        rb: "setup_ruby_environment root b h REQUIRES = Inr (ok0, b0)"
    and ws: "workdir_setup root b0 fs0 = (Inr b1, fs1)" and ok: "ok = True"
    by (auto simp: prepare_env_def split: if_splits sum.splits option.splits prod.splits)
  show "ok" by (simp add: ok)
  from setup_ruby_Inr[OF rb] obtain bin lib rq where
    b0: "b0 = b\<lparr>self_ruby_bin := bin, self_ruby_lib := lib, self_ruby_require := Some rq\<rparr>" by blast
  from ws obtain wd1 where
        l: "workdir_loop root (self_build_dir b0) (self_docs b0) (self_work_dir b0) fs0 = (Inr wd1, fs1)"
    and b1: "b1 = b0\<lparr>self_work_dir := wd1\<rparr>"
    by (auto simp: workdir_setup_def split: prod.splits sum.splits)
  from workdir_loop_success[OF l]
  have "wd1 = work_dir_after (self_build_dir b0) (self_docs b0) (self_work_dir b0)" by blast
  then have "b1 = b\<lparr>self_ruby_bin := bin, self_ruby_lib := lib, self_ruby_require := Some rq,
             self_work_dir := work_dir_after (self_build_dir b) (self_docs b) (self_work_dir b)\<rparr>"
    by (simp add: b1 b0)
  then show "\<exists>bin lib rq. b1 = b\<lparr>self_ruby_bin := bin, self_ruby_lib := lib, self_ruby_require := Some rq,
             self_work_dir := work_dir_after (self_build_dir b) (self_docs b) (self_work_dir b)\<rparr>"
    by blast
  show "\<forall>d \<in> set (self_docs b). fs1 (workdir_path (self_build_dir b) d) \<noteq> None"
    using workdir_loop_success[OF l] path_exists_entry by (simp add: b0)
qed

lemma build_selected_all:
  "self_build_target b = ''all'' \<Longrightarrow> build_selected root b h w = build_all root b h w"
  by (simp add: build_selected_def)

lemma try_body_all:
  assumes "self_build_target b = ''all''" and "try_body root b h w = (r, w')"
  shows "built_in_order [''pdf'', ''epub'', ''html'', ''json''] r w w'"
proof -
  obtain rp fs1 where p: "prepare_env root b h (filesystem w) = (rp, fs1)"
    by (cases "prepare_env root b h (filesystem w)") auto
  show ?thesis
  proof (cases rp)
    case (Inl e)
    then show ?thesis using assms(2) p by (auto simp: try_body_def intro: built_in_order_raised)
  next
    case (Inr x)
    obtain ok b1 where x: "x = (ok, b1)" by (cases x)
    note p' = p[unfolded Inr x]
    have ok: "ok" by (rule prepare_env_Inr(1)[OF p'])
    have t: "self_build_target b1 = ''all''"
      using prepare_env_Inr(2)[OF p'] assms(1) by auto
    define w2 where "w2 = w\<lparr>filesystem := fs1\<rparr>"
    have eq: "and_then (build_all root b1 h) (\<lambda>u. clean_work_dir b1) w2 = (r, w')"
      using assms(2) by (simp add: try_body_def p' ok w2_def build_selected_all[OF t, abs_def])
    have "built_in_order ([''pdf'', ''epub'', ''html'', ''json''] @ []) r w2 w'"
      by (rule ran_and_then[OF eq], rule build_all_ran, assumption, rule clean_work_dir_ran)
    then have "built_in_order [''pdf'', ''epub'', ''html'', ''json''] r w2 w'" by simp
    then show ?thesis by (rule built_in_order_base) (simp add: w2_def)
  qed
qed

lemma except_Exception_state:
  assumes "except_Exception (r, s) = (r', s')"
  shows "s' = s" and "(\<exists>v. r' = Inr v) \<longleftrightarrow> (\<exists>v. r = Inr v)"
  using assms by (auto simp: except_Exception_def split: sum.splits exn.splits)

text \<open>
  Claim C3.  In an invocation with the target \<open>all\<close> (neither cleaning nor regenerating
  diagrams), the renderer commands that \<open>main\<close> adds to the run are those of a prefix of
  pdf, epub, html, json, in this order, whatever the configuration, the host and the
  filesystem are; when \<open>main\<close> returns, they are those of all four.
\<close>

theorem all_target_build_order:
  assumes "target a = ''all''" and "\<not> clean a" and "\<not> update_wave_flag a"
      and "main root a h now w = (r, w')"
  shows "\<exists>rs. runs w' = runs w @ rs
            \<and> prefix (map fst rs) [''pdf'', ''epub'', ''html'', ''json'']
            \<and> (r = Inr () \<longrightarrow> map fst rs = [''pdf'', ''epub'', ''html'', ''json''])"
proof -
  have "built_in_order [''pdf'', ''epub'', ''html'', ''json''] r w w'"
  proof (cases "DocumentBuilder_init (main_config root a) (verbose a) now (heap w)")
    case (Inl e)
    then show ?thesis using assms(4) by (auto simp: main_def intro: built_in_order_raised)
  next
    case (Inr x)
    obtain b hp where x: "x = (b, hp)" by (cases x)
    note i = Inr[unfolded x]
    have t: "self_build_target b = ''all''"
      using init_fields(1)[OF i] assms(1) by (simp add: main_config_fields)
    define w1 where "w1 = w\<lparr>heap := hp\<rparr>"
    obtain r0 w0 where tb: "try_body root b h w1 = (r0, w0)"
      by (cases "try_body root b h w1") auto
    have m: "except_Exception (r0, w0) = (r, w')"
      using assms(2-4) by (simp add: main_def i Let_def w1_def[symmetric] tb)
    note es = except_Exception_state[OF m]
    have "built_in_order [''pdf'', ''epub'', ''html'', ''json''] r0 w1 w0"
      by (rule try_body_all[OF t tb])
    then have "built_in_order [''pdf'', ''epub'', ''html'', ''json''] r w1 w'"
      using es by (simp add: built_in_order_def)
    then show ?thesis by (rule built_in_order_base) (simp add: w1_def)
  qed
  then show ?thesis by (auto simp: built_in_order_def)
qed


lemma sample_run:
  "case main ''/r'' sample_args sample_host sample_now sample_world of
     (r, w) \<Rightarrow> r = Inr () \<and> map fst (runs w) = [''pdf'', ''epub'', ''html'', ''json'']
        \<and> filesystem w ''/r/build/openrisc-manual.pdf'' = Some (File ''rendered'')
        \<and> filesystem w ''/r/build/openrisc-manual.pdf.workdir'' = None"
  by code_simp

theorem all_target_build_order_witness:
  "target sample_args = ''all'' \<and> \<not> clean sample_args \<and> \<not> update_wave_flag sample_args
   \<and> fst (main ''/r'' sample_args sample_host sample_now sample_world) = Inr ()
   \<and> (\<exists>rs. runs (snd (main ''/r'' sample_args sample_host sample_now sample_world)) = runs sample_world @ rs
          \<and> map fst rs = [''pdf'', ''epub'', ''html'', ''json''])"
proof -
  have a: "target sample_args = ''all''" "\<not> clean sample_args" "\<not> update_wave_flag sample_args"
    by (simp_all add: sample_args_def)
  have r: "fst (main ''/r'' sample_args sample_host sample_now sample_world) = Inr ()"
    using sample_run by (simp split: prod.splits)
  have m: "main ''/r'' sample_args sample_host sample_now sample_world
            = (fst (main ''/r'' sample_args sample_host sample_now sample_world),
               snd (main ''/r'' sample_args sample_host sample_now sample_world))" by simp
  from all_target_build_order[OF a m] r a show ?thesis by auto
qed

section \<open>A failed build\<close>

lemma build_for_all_frame:
  assumes "build_for_all root b h t w = (r, w')"
      and "\<forall>dir name. self_work_dir b t = Some dir \<longrightarrow> artifact_path dir name \<noteq> q"
  shows "filesystem w' q = filesystem w q"
proof (cases "cmd_str root b (heap w) t")
  case (Inl e)
  then show ?thesis using assms by (auto simp: build_for_all_def)
next
  case (Inr cmd)
  show ?thesis
  proof (cases "self_work_dir b t")
    case None
    then show ?thesis using assms Inr by (auto simp: build_for_all_def)
  next
    case (Some dir)
    have ne: "\<forall>name. artifact_path dir name \<noteq> q" using assms(2) Some by simp
    obtain rc w1 where c: "chdir dir w = (rc, w1)" by (cases "chdir dir w") auto
    have cw: "rc = Inr () \<Longrightarrow> cwd w1 = dir" using c by (auto simp: chdir_def split: option.splits node.splits)
    note cr = chdir_runs[OF c]
    show ?thesis
    proof (cases rc)
      case (Inl e)
      then show ?thesis using assms(1) Inr Some c cr by (auto simp: build_for_all_def)
    next
      case (Inr u)
      show ?thesis using assms(1) \<open>cmd_str root b (heap w) t = Inr cmd\<close> Some c cr cw Inr ne
        by (auto simp: build_for_all_def Let_def split: sum.splits if_splits)
    qed
  qed
qed

lemma build_for_all_raises:
  assumes "build_for_all root b h t w = (Inl e, w')"
  shows "except_Exception (Inl e, w') = (Inl (SystemExit 1), w')"
proof -
  have "e = SystemExit 1 \<or> (\<forall>n. e \<noteq> SystemExit n)"
    using assms
    by (auto simp: build_for_all_def cmd_str_def getitem_def chdir_def Let_def
             split: sum.splits option.splits node.splits if_splits prod.splits)
  then show ?thesis by (cases e) (auto simp: except_Exception_def)
qed


lemma and_then_frame:
  assumes "and_then f g w = (r, w')"
      and "\<And>rf w1. f w = (rf, w1) \<Longrightarrow> filesystem w1 q = filesystem w q"
      and "\<And>v w1. g v w1 = (r, w') \<Longrightarrow> filesystem w' q = filesystem w1 q"
  shows "filesystem w' q = filesystem w q"
  using and_then_cases[OF assms(1)] assms(2,3) by metis

lemma and_then_raises:
  assumes "and_then f g w = (Inl e, w')"
      and "\<And>w1. f w = (Inl e, w1) \<Longrightarrow> P"
      and "\<And>v w1. g v w1 = (Inl e, w') \<Longrightarrow> P"
  shows "P"
  using and_then_cases[OF assms(1)] assms(2,3) by auto

lemma build_all_frame:
  assumes "build_all root b h w = (r, w')"
      and "\<forall>t \<in> set [''pdf'', ''epub'', ''html'', ''json''].
             \<forall>dir name. self_work_dir b t = Some dir \<longrightarrow> artifact_path dir name \<noteq> q"
  shows "filesystem w' q = filesystem w q"
proof -
  have f: "\<And>t w r w'. build_for_all root b h t w = (r, w') \<Longrightarrow>
             t \<in> set [''pdf'', ''epub'', ''html'', ''json''] \<Longrightarrow> filesystem w' q = filesystem w q"
    using assms(2) build_for_all_frame by blast
  define g3 where "g3 = (\<lambda>u::unit. build_for_all root b h ''json'')"
  define g2 where "g2 = (\<lambda>u::unit. and_then (build_for_all root b h ''html'') g3)"
  define g1 where "g1 = (\<lambda>u::unit. and_then (build_for_all root b h ''epub'') g2)"
  have r3: "\<And>v w1 r w'. g3 v w1 = (r, w') \<Longrightarrow> filesystem w' q = filesystem w1 q"
    unfolding g3_def by (rule f, assumption, simp)
  have r2: "\<And>v w1 r w'. g2 v w1 = (r, w') \<Longrightarrow> filesystem w' q = filesystem w1 q"
    unfolding g2_def by (erule and_then_frame, rule f, assumption, simp, rule r3)
  have r1: "\<And>v w1 r w'. g1 v w1 = (r, w') \<Longrightarrow> filesystem w' q = filesystem w1 q"
    unfolding g1_def by (erule and_then_frame, rule f, assumption, simp, rule r2)
  have eq: "and_then (build_for_all root b h ''pdf'') g1 w = (r, w')"
    using assms(1) unfolding build_all_def g1_def g2_def g3_def .
  show ?thesis
    by (rule and_then_frame[OF eq], rule f, assumption, simp, rule r1)
qed

lemma build_all_raises:
  assumes "build_all root b h w = (Inl e, w')"
  shows "except_Exception (Inl e, w') = (Inl (SystemExit 1), w')"
proof -
  have "e = SystemExit 1 \<or> (\<forall>n. e \<noteq> SystemExit n)"
  proof -
    have f: "\<And>t w w'. build_for_all root b h t w = (Inl e, w') \<Longrightarrow> e = SystemExit 1 \<or> (\<forall>n. e \<noteq> SystemExit n)"
    proof -
      fix t w w' assume "build_for_all root b h t w = (Inl e, w')"
      from build_for_all_raises[OF this] show "e = SystemExit 1 \<or> (\<forall>n. e \<noteq> SystemExit n)"
        by (cases e) (auto simp: except_Exception_def)
    qed
    from assms show ?thesis unfolding build_all_def
      by (elim and_then_raises) (erule f)+
  qed
  then show ?thesis by (cases e) (auto simp: except_Exception_def)
qed

lemma all_work_dirs:
  "work_dir_after bdir [''openrisc-manual-norm-tags.json'', ''openrisc-manual.pdf'',
        ''openrisc-manual.html'', ''openrisc-manual.epub''] Map.empty
     = [''json'' \<mapsto> workdir_path bdir ''openrisc-manual-norm-tags.json'',
        ''pdf'' \<mapsto> workdir_path bdir ''openrisc-manual.pdf'',
        ''html'' \<mapsto> workdir_path bdir ''openrisc-manual.html'',
        ''epub'' \<mapsto> workdir_path bdir ''openrisc-manual.epub'']"
  by (simp add: build_targs_def)

lemma artifact_not_output:
  assumes "D \<in> set [''openrisc-manual-norm-tags.json'', ''openrisc-manual.pdf'',
                     ''openrisc-manual.html'', ''openrisc-manual.epub'']"
      and "d \<in> set [''openrisc-manual-norm-tags.json'', ''openrisc-manual.pdf'',
                     ''openrisc-manual.html'', ''openrisc-manual.epub'']"
  shows "artifact_path (workdir_path (root @ ''/build'') D) name \<noteq> root @ ''/build/'' @ d"
    and "artifact_path (workdir_path (root @ ''/build'') D) name \<noteq> workdir_path (root @ ''/build'') d"
  using assms by (auto simp: artifact_path_def workdir_path_def)


lemma main_failed_build:
  assumes "target a = ''all''" and "\<not> clean a" and "\<not> update_wave_flag a"
      and "DocumentBuilder_init (main_config root a) (verbose a) now (heap w) = Inr (b, hp)"
      and "prepare_env root b h (filesystem w) = (Inr (ok, b1), fs1)"
      and "build_all root b1 h (w\<lparr>heap := hp, filesystem := fs1\<rparr>) = (Inl e, w2)"
  shows "main root a h now w = (Inl (SystemExit 1), w2)"
proof -
  have ok: "ok" by (rule prepare_env_Inr(1)[OF assms(5)])
  have t: "self_build_target b1 = ''all''"
    using prepare_env_Inr(2)[OF assms(5)] init_fields(1)[OF assms(4)] assms(1)
    by (auto simp: main_config_fields)
  have "try_body root b h (w\<lparr>heap := hp\<rparr>) = (Inl e, w2)"
    using assms(5,6) ok by (simp add: try_body_def build_selected_all[OF t, abs_def] and_then_def)
  then show ?thesis
    using assms(2-4) build_all_raises[OF assms(6)] by (simp add: main_def Let_def)
qed

lemma failed_build_outputs:
  assumes "target a = ''all''"
      and "DocumentBuilder_init (main_config root a) (verbose a) now (heap w) = Inr (b, hp)"
      and "prepare_env root b h (filesystem w) = (Inr (ok, b1), fs1)"
      and "build_all root b1 h (w\<lparr>heap := hp, filesystem := fs1\<rparr>) = (r, w2)"
      and "d \<in> set [''openrisc-manual-norm-tags.json'', ''openrisc-manual.pdf'',
                      ''openrisc-manual.html'', ''openrisc-manual.epub'']"
  shows "filesystem w2 (root @ ''/build/'' @ d) = fs1 (root @ ''/build/'' @ d)"
    and "filesystem w2 (workdir_path (root @ ''/build'') d) = fs1 (workdir_path (root @ ''/build'') d)"
    and "fs1 (workdir_path (root @ ''/build'') d) \<noteq> None"
proof -
  have docs: "self_docs b = [''openrisc-manual-norm-tags.json'', ''openrisc-manual.pdf'',
                      ''openrisc-manual.html'', ''openrisc-manual.epub'']"
    using init_fields(3)[OF assms(2)] init_docs_targets(1)[OF assms(1), of root] by simp
  have bd: "self_build_dir b = root @ ''/build''"
    using init_fields(2)[OF assms(2)] by (simp add: main_config_def CONFIGS_def)
  have wd0: "self_work_dir b = Map.empty" by (rule init_fields(4)[OF assms(2)])
  have wd: "self_work_dir b1 =
      [''json'' \<mapsto> workdir_path (root @ ''/build'') ''openrisc-manual-norm-tags.json'',
       ''pdf'' \<mapsto> workdir_path (root @ ''/build'') ''openrisc-manual.pdf'',
       ''html'' \<mapsto> workdir_path (root @ ''/build'') ''openrisc-manual.html'',
       ''epub'' \<mapsto> workdir_path (root @ ''/build'') ''openrisc-manual.epub'']"
  proof -
    from prepare_env_Inr(2)[OF assms(3)]
    have "self_work_dir b1 = work_dir_after (self_build_dir b) (self_docs b) (self_work_dir b)"
      by auto
    then show ?thesis unfolding docs bd wd0 all_work_dirs .
  qed
  have fr: "\<And>q. (\<forall>D \<in> set [''openrisc-manual-norm-tags.json'', ''openrisc-manual.pdf'',
                      ''openrisc-manual.html'', ''openrisc-manual.epub''].
                 \<forall>name. artifact_path (workdir_path (root @ ''/build'') D) name \<noteq> q)
              \<Longrightarrow> filesystem w2 q = fs1 q"
  proof -
    fix q
    assume n: "\<forall>D \<in> set [''openrisc-manual-norm-tags.json'', ''openrisc-manual.pdf'',
                      ''openrisc-manual.html'', ''openrisc-manual.epub''].
                 \<forall>name. artifact_path (workdir_path (root @ ''/build'') D) name \<noteq> q"
    have "filesystem w2 q = filesystem (w\<lparr>heap := hp, filesystem := fs1\<rparr>) q"
      by (rule build_all_frame[OF assms(4)]) (use n in \<open>simp add: wd\<close>)
    then show "filesystem w2 q = fs1 q" by simp
  qed
  show "filesystem w2 (root @ ''/build/'' @ d) = fs1 (root @ ''/build/'' @ d)"
    by (rule fr) (use artifact_not_output(1)[OF _ assms(5), of _ root] in blast)
  show "filesystem w2 (workdir_path (root @ ''/build'') d) = fs1 (workdir_path (root @ ''/build'') d)"
    by (rule fr) (use artifact_not_output(2)[OF _ assms(5), of _ root] in blast)
  show "fs1 (workdir_path (root @ ''/build'') d) \<noteq> None"
    using prepare_env_Inr(3)[OF assms(3)] assms(5) unfolding docs bd by blast
qed

text \<open>
  Claim C4, as amended.  When a build of an \<open>all\<close> run fails, \<open>main\<close> ends with exit
  status 1 in the state the failed build left: \<open>clean_work_dir\<close> is not run.  No declared
  output file in the build directory has changed since the builds started, so the artifact
  of a target built before the failure is not promoted, and every workspace is still there.
\<close>

theorem failed_build_is_not_finalized:
  assumes "target a = ''all''" and "\<not> clean a" and "\<not> update_wave_flag a"
      and "DocumentBuilder_init (main_config root a) (verbose a) now (heap w) = Inr (b, hp)"
      and "prepare_env root b h (filesystem w) = (Inr (ok, b1), fs1)"
      and "build_all root b1 h (w\<lparr>heap := hp, filesystem := fs1\<rparr>) = (Inl e, w2)"
  shows "main root a h now w = (Inl (SystemExit 1), w2)
       \<and> (\<forall>d \<in> set [''openrisc-manual-norm-tags.json'', ''openrisc-manual.pdf'',
                      ''openrisc-manual.html'', ''openrisc-manual.epub''].
             filesystem w2 (root @ ''/build/'' @ d) = fs1 (root @ ''/build/'' @ d)
           \<and> filesystem w2 (workdir_path (root @ ''/build'') d) = fs1 (workdir_path (root @ ''/build'') d)
           \<and> filesystem w2 (workdir_path (root @ ''/build'') d) \<noteq> None)"
  using main_failed_build[OF assms] failed_build_outputs[OF assms(1,4,5,6)]
  by auto

text \<open>The run on the sample checkout in which the e-book build fails, by its stages.\<close>

lemma failing_run:
  "case DocumentBuilder_init (main_config ''/r'' sample_args) (verbose sample_args) sample_now (heap sample_world) of
     Inl e \<Rightarrow> False
   | Inr (b, hp) \<Rightarrow>
      (case prepare_env ''/r'' b epub_failing_host (filesystem sample_world) of
         (Inl e, fs1) \<Rightarrow> False
       | (Inr (ok, b1), fs1) \<Rightarrow>
          (case build_all ''/r'' b1 epub_failing_host (sample_world\<lparr>heap := hp, filesystem := fs1\<rparr>) of
             (Inr u, w2) \<Rightarrow> False
           | (Inl e, w2) \<Rightarrow>
               map fst (runs w2) = [''pdf'', ''epub'']
               \<and> filesystem w2 ''/r/build/openrisc-manual.pdf.workdir/build/openrisc-manual.pdf''
                     = Some (File ''rendered'')
               \<and> filesystem w2 ''/r/build/openrisc-manual.pdf'' = None))"
  by code_simp

lemma failing_run_stages:
  "\<exists>b hp ok b1 fs1 e w2.
      DocumentBuilder_init (main_config ''/r'' sample_args) (verbose sample_args) sample_now (heap sample_world) = Inr (b, hp)
    \<and> prepare_env ''/r'' b epub_failing_host (filesystem sample_world) = (Inr (ok, b1), fs1)
    \<and> build_all ''/r'' b1 epub_failing_host (sample_world\<lparr>heap := hp, filesystem := fs1\<rparr>) = (Inl e, w2)
    \<and> map fst (runs w2) = [''pdf'', ''epub'']
    \<and> filesystem w2 ''/r/build/openrisc-manual.pdf.workdir/build/openrisc-manual.pdf'' = Some (File ''rendered'')
    \<and> filesystem w2 ''/r/build/openrisc-manual.pdf'' = None"
proof -
  let ?i = "DocumentBuilder_init (main_config ''/r'' sample_args) (verbose sample_args) sample_now (heap sample_world)"
  obtain b hp where i: "?i = Inr (b, hp)"
    using failing_run by (cases ?i) auto
  let ?p = "prepare_env ''/r'' b epub_failing_host (filesystem sample_world)"
  obtain rp fs1 where p0: "?p = (rp, fs1)" by (cases ?p) auto
  obtain ok b1 where rp: "rp = Inr (ok, b1)"
    using failing_run i p0 by (cases rp) auto
  let ?b = "build_all ''/r'' b1 epub_failing_host (sample_world\<lparr>heap := hp, filesystem := fs1\<rparr>)"
  obtain rb w2 where b0: "?b = (rb, w2)" by (cases ?b) auto
  obtain e where rb: "rb = Inl e"
    using failing_run i p0 rp b0 by (cases rb) auto
  show ?thesis
    using failing_run i p0 rp b0 rb by auto
qed


lemma sample_args_all:
  "target sample_args = ''all''" "\<not> clean sample_args" "\<not> update_wave_flag sample_args"
  by (simp_all add: sample_args_def)

theorem failed_build_is_not_finalized_witness:
  "\<exists>b hp ok b1 fs1 e w2.
      DocumentBuilder_init (main_config ''/r'' sample_args) (verbose sample_args) sample_now (heap sample_world) = Inr (b, hp)
    \<and> prepare_env ''/r'' b epub_failing_host (filesystem sample_world) = (Inr (ok, b1), fs1)
    \<and> build_all ''/r'' b1 epub_failing_host (sample_world\<lparr>heap := hp, filesystem := fs1\<rparr>) = (Inl e, w2)
    \<and> main ''/r'' sample_args epub_failing_host sample_now sample_world = (Inl (SystemExit 1), w2)
    \<and> filesystem w2 ''/r/build/openrisc-manual.pdf'' = fs1 ''/r/build/openrisc-manual.pdf''
    \<and> filesystem w2 (workdir_path ''/r/build'' ''openrisc-manual.pdf'') \<noteq> None"
proof -
  from failing_run_stages obtain b hp ok b1 fs1 e w2 where
        i: "DocumentBuilder_init (main_config ''/r'' sample_args) (verbose sample_args) sample_now (heap sample_world) = Inr (b, hp)"
    and p: "prepare_env ''/r'' b epub_failing_host (filesystem sample_world) = (Inr (ok, b1), fs1)"
    and f: "build_all ''/r'' b1 epub_failing_host (sample_world\<lparr>heap := hp, filesystem := fs1\<rparr>) = (Inl e, w2)"
    by (elim exE conjE)
  note T = failed_build_is_not_finalized[OF sample_args_all i p f]
  have m: "main ''/r'' sample_args epub_failing_host sample_now sample_world = (Inl (SystemExit 1), w2)"
    using T by simp
  have "\<forall>d \<in> set [''openrisc-manual-norm-tags.json'', ''openrisc-manual.pdf'',
                      ''openrisc-manual.html'', ''openrisc-manual.epub''].
             filesystem w2 (''/r'' @ ''/build/'' @ d) = fs1 (''/r'' @ ''/build/'' @ d)
           \<and> filesystem w2 (workdir_path (''/r'' @ ''/build'') d) = fs1 (workdir_path (''/r'' @ ''/build'') d)
           \<and> filesystem w2 (workdir_path (''/r'' @ ''/build'') d) \<noteq> None"
    using T by (rule conjunct2)
  then have pdf: "filesystem w2 (''/r'' @ ''/build/'' @ ''openrisc-manual.pdf'')
             = fs1 (''/r'' @ ''/build/'' @ ''openrisc-manual.pdf'')
           \<and> filesystem w2 (workdir_path (''/r'' @ ''/build'') ''openrisc-manual.pdf'')
             = fs1 (workdir_path (''/r'' @ ''/build'') ''openrisc-manual.pdf'')
           \<and> filesystem w2 (workdir_path (''/r'' @ ''/build'') ''openrisc-manual.pdf'') \<noteq> None"
    by (rule bspec) simp
  have o1: "filesystem w2 ''/r/build/openrisc-manual.pdf'' = fs1 ''/r/build/openrisc-manual.pdf''"
    using conjunct1[OF pdf] by simp
  have o2: "filesystem w2 (workdir_path ''/r/build'' ''openrisc-manual.pdf'') \<noteq> None"
    using conjunct2[OF conjunct2[OF pdf]] by simp
  show ?thesis
    apply (intro exI conjI)
         apply (rule i)
        apply (rule p)
       apply (rule f)
      apply (rule m)
     apply (rule o1)
    apply (rule o2)
    done
qed

text \<open>
  The claim as stated fails.  On the sample checkout with a renderer that fails for the
  e-book, the print format is built, the e-book build fails, \<open>main\<close> ends with exit status
  1, and the rendered print file is still in its workspace and not in the build directory.
\<close>

theorem failed_build_leaves_artifact_unpromoted:
  "fst (main ''/r'' sample_args epub_failing_host sample_now sample_world) = Inl (SystemExit 1)
   \<and> map fst (runs (snd (main ''/r'' sample_args epub_failing_host sample_now sample_world))) = [''pdf'', ''epub'']
   \<and> filesystem (snd (main ''/r'' sample_args epub_failing_host sample_now sample_world))
        ''/r/build/openrisc-manual.pdf.workdir/build/openrisc-manual.pdf'' = Some (File ''rendered'')
   \<and> filesystem (snd (main ''/r'' sample_args epub_failing_host sample_now sample_world))
        ''/r/build/openrisc-manual.pdf'' = None"
proof -
  from failing_run_stages obtain b hp ok b1 fs1 e w2 where
        i: "DocumentBuilder_init (main_config ''/r'' sample_args) (verbose sample_args) sample_now (heap sample_world) = Inr (b, hp)"
    and p: "prepare_env ''/r'' b epub_failing_host (filesystem sample_world) = (Inr (ok, b1), fs1)"
    and f: "build_all ''/r'' b1 epub_failing_host (sample_world\<lparr>heap := hp, filesystem := fs1\<rparr>) = (Inl e, w2)"
    and r: "map fst (runs w2) = [''pdf'', ''epub'']"
       "filesystem w2 ''/r/build/openrisc-manual.pdf.workdir/build/openrisc-manual.pdf'' = Some (File ''rendered'')"
       "filesystem w2 ''/r/build/openrisc-manual.pdf'' = None"
    by (elim exE conjE)
  have "main ''/r'' sample_args epub_failing_host sample_now sample_world = (Inl (SystemExit 1), w2)"
    by (rule main_failed_build[OF sample_args_all i p f])
  then show ?thesis using r by simp
qed

end
